theory Spec2Isabelle
  imports Main "HOL-Library.Word" "HOL-Library.AList"
begin

unbundle bit_operations_syntax

section \<open>Byte streams (stream\_in.go, byte\_stream\_out.go)\<close>

text \<open>
  A Go panic ends the handler that raised it; it is a value of the model.  Errors that
  the Go code returns as its second result are kept as the message they carry.
\<close>

datatype panic = SliceBoundsOutOfRange | IndexOutOfRange | IntegerDivideByZero

type_synonym byte = "8 word"
type_synonym bytes = "8 word list"
type_synonym goerror = "string option"

text \<open>
  \<open>StreamIn\<close> embeds a crunch buffer: the byte slice and the byte offset of the next
  read.  The offset is a Go \<open>int64\<close>; the model keeps the non-negative ones.
\<close>

record StreamIn =
  buf :: bytes
  boff :: nat

definition NewStreamIn :: "bytes \<Rightarrow> StreamIn" where
  "NewStreamIn data = \<lparr>buf = data, boff = 0\<rparr>"

text \<open>
  \<open>Remaining\<close> is \<open>len(stream.Bytes()[stream.ByteOffset():])\<close>: the slice expression
  panics when the offset is past the end of the buffer.
\<close>

definition Remaining :: "StreamIn \<Rightarrow> panic + nat" where
  "Remaining stream =
     (if boff stream \<le> length (buf stream)
      then Inr (length (drop (boff stream) (buf stream)))
      else Inl SliceBoundsOutOfRange)"

text \<open>
  The reads of the crunch buffer (an external library): \<open>n\<close> bytes at the offset, which
  then moves by \<open>n\<close>; reading past the end of the slice panics.
\<close>

definition ReadBytesNext :: "nat \<Rightarrow> StreamIn \<Rightarrow> panic + (bytes \<times> StreamIn)" where
  "ReadBytesNext n stream =
     (if boff stream + n \<le> length (buf stream)
      then Inr (take n (drop (boff stream) (buf stream)), stream\<lparr>boff := boff stream + n\<rparr>)
      else Inl SliceBoundsOutOfRange)"

definition ReadByteNext :: "StreamIn \<Rightarrow> panic + (byte \<times> StreamIn)" where
  "ReadByteNext stream =
     (if boff stream < length (buf stream)
      then Inr (buf stream ! boff stream, stream\<lparr>boff := boff stream + 1\<rparr>)
      else Inl IndexOutOfRange)"

text \<open>Little-endian and big-endian values of a byte string.\<close>

fun le_word :: "bytes \<Rightarrow> 'a::len word" where
  "le_word [] = 0"
| "le_word (b # bs) = ucast b OR push_bit 8 (le_word bs)"

definition be_word :: "bytes \<Rightarrow> 'a::len word" where
  "be_word bs = le_word (rev bs)"

definition le_bytes :: "nat \<Rightarrow> 'a::len word \<Rightarrow> bytes" where
  "le_bytes n v = map (\<lambda>i. ucast (drop_bit (8 * i) v)) [0..<n]"

definition ReadU16LENext :: "StreamIn \<Rightarrow> panic + (16 word \<times> StreamIn)" where
  "ReadU16LENext stream = map_sum id (map_prod le_word id) (ReadBytesNext 2 stream)"

definition ReadU16BENext :: "StreamIn \<Rightarrow> panic + (16 word \<times> StreamIn)" where
  "ReadU16BENext stream = map_sum id (map_prod be_word id) (ReadBytesNext 2 stream)"

definition ReadU32LENext :: "StreamIn \<Rightarrow> panic + (32 word \<times> StreamIn)" where
  "ReadU32LENext stream = map_sum id (map_prod le_word id) (ReadBytesNext 4 stream)"

definition ReadU32BENext :: "StreamIn \<Rightarrow> panic + (32 word \<times> StreamIn)" where
  "ReadU32BENext stream = map_sum id (map_prod be_word id) (ReadBytesNext 4 stream)"

definition ReadU64LENext :: "StreamIn \<Rightarrow> panic + (64 word \<times> StreamIn)" where
  "ReadU64LENext stream = map_sum id (map_prod le_word id) (ReadBytesNext 8 stream)"

definition ReadU64BENext :: "StreamIn \<Rightarrow> panic + (64 word \<times> StreamIn)" where
  "ReadU64BENext stream = map_sum id (map_prod be_word id) (ReadBytesNext 8 stream)"

text \<open>
  Every typed read of \<open>StreamIn\<close> has the same shape: the bounds check on
  \<open>Remaining\<close>, the zero value with an error when it fails, the crunch read converted to
  the result type otherwise.  \<open>guarded\<close> is that shape; each read below instantiates
  it with its width, its error message, its crunch read and its conversion, as the source
  writes them out one by one.
\<close>

definition guarded ::
  "nat \<Rightarrow> string \<Rightarrow> 'b \<Rightarrow> (StreamIn \<Rightarrow> panic + ('a \<times> StreamIn)) \<Rightarrow> ('a \<Rightarrow> 'b) \<Rightarrow>
   StreamIn \<Rightarrow> panic + (('b \<times> goerror) \<times> StreamIn)" where
  "guarded width msg zero rd conv stream =
     (case Remaining stream of
        Inl p \<Rightarrow> Inl p
      | Inr n \<Rightarrow>
          if n < width then Inr ((zero, Some msg), stream)
          else (case rd stream of
                  Inl p \<Rightarrow> Inl p
                | Inr (v, stream') \<Rightarrow> Inr ((conv v, None), stream')))"

text \<open>
  Signed reads convert the unsigned value bit for bit (\<open>int8(x)\<close>): the result is the
  two's complement reading \<open>sint\<close>.  A float is kept as its IEEE-754 bit pattern
  (\<open>math.Float32frombits\<close> is one-to-one on it); the zero value \<open>0.0\<close> is the pattern 0.
\<close>

definition ReadUInt8 :: "StreamIn \<Rightarrow> panic + ((byte \<times> goerror) \<times> StreamIn)" where
  "ReadUInt8 = guarded 1 ''Not enough data to read uint8'' 0 ReadByteNext id"

definition ReadInt8 :: "StreamIn \<Rightarrow> panic + ((int \<times> goerror) \<times> StreamIn)" where
  "ReadInt8 = guarded 1 ''Not enough data to read int8'' 0 ReadByteNext sint"

definition ReadUInt16LE :: "StreamIn \<Rightarrow> panic + ((16 word \<times> goerror) \<times> StreamIn)" where
  "ReadUInt16LE = guarded 2 ''Not enough data to read uint16'' 0 ReadU16LENext id"

definition ReadUInt16BE :: "StreamIn \<Rightarrow> panic + ((16 word \<times> goerror) \<times> StreamIn)" where
  "ReadUInt16BE = guarded 2 ''Not enough data to read uint16'' 0 ReadU16BENext id"

definition ReadInt16LE :: "StreamIn \<Rightarrow> panic + ((int \<times> goerror) \<times> StreamIn)" where
  "ReadInt16LE = guarded 2 ''Not enough data to read int16'' 0 ReadU16LENext sint"

definition ReadInt16BE :: "StreamIn \<Rightarrow> panic + ((int \<times> goerror) \<times> StreamIn)" where
  "ReadInt16BE = guarded 2 ''Not enough data to read int16'' 0 ReadU16BENext sint"

definition ReadUInt32LE :: "StreamIn \<Rightarrow> panic + ((32 word \<times> goerror) \<times> StreamIn)" where
  "ReadUInt32LE = guarded 4 ''Not enough data to read uint32'' 0 ReadU32LENext id"

definition ReadUInt32BE :: "StreamIn \<Rightarrow> panic + ((32 word \<times> goerror) \<times> StreamIn)" where
  "ReadUInt32BE = guarded 4 ''Not enough data to read uint32'' 0 ReadU32BENext id"

definition ReadInt32LE :: "StreamIn \<Rightarrow> panic + ((int \<times> goerror) \<times> StreamIn)" where
  "ReadInt32LE = guarded 4 ''Not enough data to read int32'' 0 ReadU32LENext sint"

definition ReadInt32BE :: "StreamIn \<Rightarrow> panic + ((int \<times> goerror) \<times> StreamIn)" where
  "ReadInt32BE = guarded 4 ''Not enough data to read int32'' 0 ReadU32BENext sint"

definition ReadUInt64LE :: "StreamIn \<Rightarrow> panic + ((64 word \<times> goerror) \<times> StreamIn)" where
  "ReadUInt64LE = guarded 8 ''Not enough data to read uint64'' 0 ReadU64LENext id"

definition ReadUInt64BE :: "StreamIn \<Rightarrow> panic + ((64 word \<times> goerror) \<times> StreamIn)" where
  "ReadUInt64BE = guarded 8 ''Not enough data to read uint64'' 0 ReadU64BENext id"

definition ReadInt64LE :: "StreamIn \<Rightarrow> panic + ((int \<times> goerror) \<times> StreamIn)" where
  "ReadInt64LE = guarded 8 ''Not enough data to read int64'' 0 ReadU64LENext sint"

definition ReadInt64BE :: "StreamIn \<Rightarrow> panic + ((int \<times> goerror) \<times> StreamIn)" where
  "ReadInt64BE = guarded 8 ''Not enough data to read int64'' 0 ReadU64BENext sint"

definition ReadFloat32LE :: "StreamIn \<Rightarrow> panic + ((32 word \<times> goerror) \<times> StreamIn)" where
  "ReadFloat32LE = guarded 4 ''Not enough data to read float32'' 0 ReadU32LENext id"

definition ReadFloat32BE :: "StreamIn \<Rightarrow> panic + ((32 word \<times> goerror) \<times> StreamIn)" where
  "ReadFloat32BE = guarded 4 ''Not enough data to read float32'' 0 ReadU32BENext id"

definition ReadFloat64LE :: "StreamIn \<Rightarrow> panic + ((64 word \<times> goerror) \<times> StreamIn)" where
  "ReadFloat64LE = guarded 8 ''Not enough data to read float64'' 0 ReadU64LENext id"

definition ReadFloat64BE :: "StreamIn \<Rightarrow> panic + ((64 word \<times> goerror) \<times> StreamIn)" where
  "ReadFloat64BE = guarded 8 ''Not enough data to read float64'' 0 ReadU64BENext id"

definition ReadBool :: "StreamIn \<Rightarrow> panic + ((bool \<times> goerror) \<times> StreamIn)" where
  "ReadBool = guarded 1 ''Not enough data to read bool'' False ReadByteNext (\<lambda>b. b = 1)"

subsection \<open>Writing (StreamOut)\<close>

text \<open>
  \<open>WriteUInt32LE\<close> grows the crunch buffer by four bytes and writes the value at the
  offset, which moves by four (byte\_stream\_out.go, \<open>WritePrimitiveUInt32LE\<close>).
\<close>

record StreamOut =
  obuf :: bytes
  oboff :: nat

definition NewStreamOut :: StreamOut where
  "NewStreamOut = \<lparr>obuf = [], oboff = 0\<rparr>"

definition Grow :: "nat \<Rightarrow> StreamOut \<Rightarrow> StreamOut" where
  "Grow n stream = stream\<lparr>obuf := obuf stream @ replicate n 0\<rparr>"

definition WriteBytesNext :: "bytes \<Rightarrow> StreamOut \<Rightarrow> panic + StreamOut" where
  "WriteBytesNext data stream =
     (if oboff stream + length data \<le> length (obuf stream)
      then Inr (stream\<lparr>obuf := take (oboff stream) (obuf stream) @ data @
                                 drop (oboff stream + length data) (obuf stream),
                        oboff := oboff stream + length data\<rparr>)
      else Inl SliceBoundsOutOfRange)"

definition WriteUInt32LE :: "32 word \<Rightarrow> StreamOut \<Rightarrow> panic + StreamOut" where
  "WriteUInt32LE u32 stream = WriteBytesNext (le_bytes 4 u32) (Grow 4 stream)"

section \<open>Packets, peers and the server (prudp\_server.go)\<close>

text \<open>
  The packet types and flags are constants of the repository that the sources at hand do
  not hold; they are kept symbolic.  \<open>OtherPacket\<close> stands for a type value that no
  case of the dispatcher's switch names.
\<close>

datatype PacketType =
  SynPacket | ConnectPacket | DataPacket | DisconnectPacket | PingPacket | OtherPacket

datatype Flag = FlagAck | FlagReliable | FlagNeedsAck | FlagHasSize | FlagMultiAck

text \<open>A peer object is referred to by its address in the store, as Go's pointer does.\<close>

type_synonym client_ref = nat

record PRUDPPacket =
  sender :: client_ref
  version :: nat
  sourceStreamType :: byte
  sourcePort :: byte
  destinationStreamType :: byte
  destinationPort :: byte
  packetType :: PacketType
  flags :: "Flag set"
  sessionID :: byte
  substreamID :: byte
  sequenceID :: "16 word"
  fragmentID :: byte
  connectionSignature :: bytes
  payload :: bytes
  signature :: bytes
  maximumSubstreamID :: byte
  minorVersion :: "32 word"
  supportedFunctions :: "32 word"
  message :: "bytes option"

text \<open>
  \<open>NewPRUDPPacketV0(client, nil)\<close> and \<open>NewPRUDPPacketV1(client, nil)\<close>: a blank packet
  of the version, sent by the client.
\<close>

definition NewPRUDPPacket :: "nat \<Rightarrow> client_ref \<Rightarrow> PRUDPPacket" where
  "NewPRUDPPacket v client =
     \<lparr>sender = client, version = v, sourceStreamType = 0, sourcePort = 0,
      destinationStreamType = 0, destinationPort = 0, packetType = SynPacket, flags = {},
      sessionID = 0, substreamID = 0, sequenceID = 0, fragmentID = 0,
      connectionSignature = [], payload = [], signature = [], maximumSubstreamID = 0,
      minorVersion = 0, supportedFunctions = 0, message = None\<rparr>"

text \<open>
  Modelled from the spec: the RC4 keystream state of one direction of a substream (the
  cipher itself is a parameter, see \<open>Env\<close>): the key and the number of bytes consumed.
\<close>

record RC4 =
  rc4key :: bytes
  rc4pos :: nat

text \<open>
  Modelled from the spec: the reliable substream (\<open>ReliablePacketSubstreamManager\<close>),
  whose source file is not at hand.  It holds the next expected incoming and the next
  outgoing sequence id, the buffer of packets awaiting in-order delivery, the accumulator
  of fragments, the two keystream states, and the retransmission scheduler: a Go map from
  sequence id to pending packet, kept as an association list whose order is the order in
  which \<open>Each\<close> happens to visit it.
\<close>

record ReliablePacketSubstreamManager =
  incomingSequenceID :: "16 word"
  outgoingSequenceID :: "16 word"
  pendingPackets :: "(16 word \<times> PRUDPPacket) list"
  fragmentedPayload :: bytes
  cipher :: RC4
  decipher :: RC4
  ResendScheduler :: "(16 word \<times> PRUDPPacket) list"

text \<open>
  Modelled from the spec: the peer (\<open>PRUDPClient\<close>): its address discriminator, PID,
  session key, connection signatures, stream types and ports, the v1 settings, the table
  of reliable substreams indexed from 0, and the two outgoing counters.
\<close>

record PRUDPClient =
  address :: string
  pid :: "32 word"
  sessionKey :: bytes
  clientConnectionSignature :: bytes
  serverConnectionSignature :: bytes
  clientSourceStreamType :: byte
  clientSourcePort :: byte
  clientDestinationStreamType :: byte
  clientDestinationPort :: byte
  clientMinorVersion :: "32 word"
  clientSupportedFunctions :: "32 word"
  reliableSubstreams :: "ReliablePacketSubstreamManager list"
  outgoingUnreliableSequenceID :: "16 word"
  outgoingPingSequenceID :: "16 word"

text \<open>
  What a handler does to the outside, in order: a datagram written to the socket, an event
  handler started in its own goroutine (\<open>go handler(packet)\<close>), a line printed, and the
  peer's timers being re-armed or stopped.
\<close>

datatype effect =
  SendRaw string bytes
| Spawn string nat PRUDPPacket
| Println string
| ResetHeartbeat client_ref
| StopTimers client_ref

record PRUDPServer =
  clients :: "string \<rightharpoonup> client_ref"
  PRUDPVersion :: int
  IsSecureServer :: bool
  kerberosPassword :: bytes
  FragmentSize :: int
  eventHandlers :: "string \<rightharpoonup> nat list"

record world =
  server :: PRUDPServer
  store :: "client_ref \<Rightarrow> PRUDPClient"
  trace :: "effect list"

text \<open>The ticket as \<open>KerberosTicketInternalData.Decrypt\<close> leaves it.\<close>

record KerberosTicketInternalData =
  Issued :: "64 word"
  SourcePID :: "32 word"
  SessionKey :: bytes

text \<open>
  The packet codec and the Kerberos primitives are code of the repository that is not in
  the sources at hand; the handlers take them as parameters.  All are functions of their
  arguments.  \<open>Standard\<close> turns a packed \<open>DateTime\<close> into a time, counted in
  nanoseconds as Go's \<open>time\<close> does.
\<close>

record Env =
  calculateSignature :: "PRUDPPacket \<Rightarrow> bytes \<Rightarrow> bytes \<Rightarrow> bytes"
  calculateConnectionSignature :: "PRUDPPacket \<Rightarrow> string \<Rightarrow> bytes"
  Bytes :: "PRUDPPacket \<Rightarrow> bytes"
  XORKeyStream :: "RC4 \<Rightarrow> bytes \<Rightarrow> bytes"
  DeriveKerberosKey :: "32 word \<Rightarrow> bytes \<Rightarrow> bytes"
  TicketDecrypt :: "bytes \<Rightarrow> bytes \<Rightarrow> string + KerberosTicketInternalData"
  KerberosDecrypt :: "bytes \<Rightarrow> bytes \<Rightarrow> string + bytes"
  Standard :: "64 word \<Rightarrow> int"

type_synonym 'a outcome = "(panic \<times> world) + 'a"

definition bindE :: "'e + 'a \<Rightarrow> ('a \<Rightarrow> 'e + 'b) \<Rightarrow> 'e + 'b" where
  "bindE m f = (case m of Inl e \<Rightarrow> Inl e | Inr a \<Rightarrow> f a)"

definition emit :: "string \<Rightarrow> PRUDPPacket \<Rightarrow> world \<Rightarrow> world" where
  "emit name packet w =
     (case eventHandlers (server w) name of
        None \<Rightarrow> w
      | Some handlers \<Rightarrow> w\<lparr>trace := trace w @ map (\<lambda>handler. Spawn name handler packet) handlers\<rparr>)"

definition sendRaw :: "string \<Rightarrow> bytes \<Rightarrow> world \<Rightarrow> world" where
  "sendRaw conn data w = w\<lparr>trace := trace w @ [SendRaw conn data]\<rparr>"

text \<open>
  Modelled from the spec: \<open>client.reliableSubstream(id)\<close> indexes the table of
  substreams; an index outside a Go slice panics.
\<close>

definition reliableSubstream :: "PRUDPClient \<Rightarrow> byte \<Rightarrow> panic + ReliablePacketSubstreamManager" where
  "reliableSubstream client sid =
     (if unat sid < length (reliableSubstreams client)
      then Inr (reliableSubstreams client ! unat sid)
      else Inl IndexOutOfRange)"

text \<open>The substream is an object behind a pointer: a change to it is a change in the store.\<close>

definition putSubstream ::
  "client_ref \<Rightarrow> byte \<Rightarrow> ReliablePacketSubstreamManager \<Rightarrow> world \<Rightarrow> world" where
  "putSubstream ref sid substream w =
     w\<lparr>store := (store w)(ref := (store w ref)\<lparr>reliableSubstreams :=
          (reliableSubstreams (store w ref))[unat sid := substream]\<rparr>)\<rparr>"

definition withSubstream ::
  "client_ref \<Rightarrow> byte \<Rightarrow> world \<Rightarrow> (ReliablePacketSubstreamManager \<Rightarrow> 'a outcome) \<Rightarrow> 'a outcome" where
  "withSubstream ref sid w f =
     (case reliableSubstream (store w ref) sid of
        Inl p \<Rightarrow> Inl (p, w)
      | Inr substream \<Rightarrow> f substream)"

text \<open>
  Modelled from the spec: \<open>NextOutgoingSequenceID\<close> and the peer's two counters return
  the next id and advance (uint16, wrapping); \<open>Encrypt\<close> runs the outgoing keystream
  over the payload; \<open>AddPacket\<close> and \<open>AcknowledgePacket\<close> insert into and remove from
  the scheduler's map.
\<close>

definition Encrypt :: "Env \<Rightarrow> ReliablePacketSubstreamManager \<Rightarrow> bytes \<Rightarrow>
    bytes \<times> ReliablePacketSubstreamManager" where
  "Encrypt env substream data =
     (XORKeyStream env (cipher substream) data,
      substream\<lparr>cipher := (cipher substream)\<lparr>rc4pos := rc4pos (cipher substream) + length data\<rparr>\<rparr>)"

definition Decrypt :: "Env \<Rightarrow> ReliablePacketSubstreamManager \<Rightarrow> bytes \<Rightarrow>
    bytes \<times> ReliablePacketSubstreamManager" where
  "Decrypt env substream data =
     (XORKeyStream env (decipher substream) data,
      substream\<lparr>decipher := (decipher substream)\<lparr>rc4pos := rc4pos (decipher substream) + length data\<rparr>\<rparr>)"

definition AddPacket :: "PRUDPPacket \<Rightarrow> ReliablePacketSubstreamManager \<Rightarrow>
    ReliablePacketSubstreamManager" where
  "AddPacket packet substream =
     substream\<lparr>ResendScheduler := AList.update (sequenceID packet) packet (ResendScheduler substream)\<rparr>"

definition AcknowledgePacket :: "16 word \<Rightarrow> ReliablePacketSubstreamManager \<Rightarrow>
    ReliablePacketSubstreamManager" where
  "AcknowledgePacket sequenceID' substream =
     substream\<lparr>ResendScheduler := AList.delete sequenceID' (ResendScheduler substream)\<rparr>"

subsection \<open>sendPacket\<close>

definition assignSequenceID :: "PRUDPPacket \<Rightarrow> world \<Rightarrow> (PRUDPPacket \<times> world) outcome" where
  "assignSequenceID packet w =
     (let ref = sender packet; client = store w ref in
      if FlagAck \<notin> flags packet \<and> FlagMultiAck \<notin> flags packet then
        if FlagReliable \<in> flags packet then
          withSubstream ref (substreamID packet) w (\<lambda>substream.
            Inr (packet\<lparr>sequenceID := outgoingSequenceID substream\<rparr>,
                 putSubstream ref (substreamID packet)
                   (substream\<lparr>outgoingSequenceID := outgoingSequenceID substream + 1\<rparr>) w))
        else if packetType packet = DataPacket then
          Inr (packet\<lparr>sequenceID := outgoingUnreliableSequenceID client\<rparr>,
               w\<lparr>store := (store w)(ref := client\<lparr>outgoingUnreliableSequenceID :=
                    outgoingUnreliableSequenceID client + 1\<rparr>)\<rparr>)
        else if packetType packet = PingPacket then
          Inr (packet\<lparr>sequenceID := outgoingPingSequenceID client\<rparr>,
               w\<lparr>store := (store w)(ref := client\<lparr>outgoingPingSequenceID :=
                    outgoingPingSequenceID client + 1\<rparr>)\<rparr>)
        else Inr (packet\<lparr>sequenceID := 0\<rparr>, w)
      else Inr (packet, w))"

definition encryptPayload :: "Env \<Rightarrow> PRUDPPacket \<Rightarrow> world \<Rightarrow> (PRUDPPacket \<times> world) outcome" where
  "encryptPayload env packet w =
     (if packetType packet = DataPacket \<and> FlagAck \<notin> flags packet \<and> FlagMultiAck \<notin> flags packet
         \<and> FlagReliable \<in> flags packet then
        withSubstream (sender packet) (substreamID packet) w (\<lambda>substream.
          case Encrypt env substream (payload packet) of
            (ciphered, substream') \<Rightarrow>
              Inr (packet\<lparr>payload := ciphered\<rparr>,
                   putSubstream (sender packet) (substreamID packet) substream' w))
      else Inr (packet, w))"

definition scheduleResend :: "PRUDPPacket \<Rightarrow> world \<Rightarrow> world outcome" where
  "scheduleResend packet w =
     (if FlagReliable \<in> flags packet \<and> FlagNeedsAck \<in> flags packet then
        withSubstream (sender packet) (substreamID packet) w (\<lambda>substream.
          Inr (putSubstream (sender packet) (substreamID packet) (AddPacket packet substream) w))
      else Inr w)"

text \<open>
  \<open>sendPacket\<close> changes the packet it is given (sequence id, payload, signature); the
  packet is returned with the world, since \<open>Send\<close> and \<open>acknowledgePacket\<close> go on
  using it.
\<close>

definition sendPacket :: "Env \<Rightarrow> PRUDPPacket \<Rightarrow> world \<Rightarrow> (PRUDPPacket \<times> world) outcome" where
  "sendPacket env packet w =
     bindE (assignSequenceID packet w) (\<lambda>(packet, w).
     bindE (encryptPayload env packet w) (\<lambda>(packet, w).
       let client = store w (sender packet);
           packet = packet\<lparr>signature :=
             calculateSignature env packet (sessionKey client) (serverConnectionSignature client)\<rparr>
       in bindE (scheduleResend packet w) (\<lambda>w.
            Inr (packet, sendRaw (address (store w (sender packet))) (Bytes env packet) w))))"

subsection \<open>acknowledgePacket\<close>

definition acknowledgePacket :: "Env \<Rightarrow> PRUDPPacket \<Rightarrow> world \<Rightarrow> world outcome" where
  "acknowledgePacket env packet w =
     (let ack = NewPRUDPPacket (if version packet = 0 then 0 else 1) (sender packet);
          ack = ack\<lparr>packetType := packetType packet\<rparr>;
          ack = ack\<lparr>flags := insert FlagAck (flags ack)\<rparr>;
          ack = ack\<lparr>sourceStreamType := destinationStreamType packet\<rparr>;
          ack = ack\<lparr>sourcePort := destinationPort packet\<rparr>;
          ack = ack\<lparr>destinationStreamType := sourceStreamType packet\<rparr>;
          ack = ack\<lparr>destinationPort := sourcePort packet\<rparr>;
          ack = ack\<lparr>sequenceID := sequenceID packet\<rparr>;
          ack = ack\<lparr>fragmentID := fragmentID packet\<rparr>;
          ack = ack\<lparr>substreamID := substreamID packet\<rparr>
      in bindE (sendPacket env ack w) (\<lambda>(ack, w).
           if packetType packet = DisconnectPacket then
             bindE (sendPacket env ack w) (\<lambda>(ack, w).
             bindE (sendPacket env ack w) (\<lambda>(ack, w). Inr w))
           else Inr w))"


subsection \<open>Reliable delivery\<close>

text \<open>
  Modelled from the spec: \<open>Update\<close> enqueues the packet under its sequence id, then
  walks forward from the expected sequence id, pulling packets out of the buffer in order;
  \<open>AddFragment\<close> appends to the accumulator and returns it; \<open>ResetFragmentedPayload\<close>
  clears it.
\<close>

lemma length_delete_less:
  "map_of al k = Some v \<Longrightarrow> length (AList.delete k al) < length al"
proof (induction al)
  case Nil
  then show ?case by simp
next
  case (Cons a al)
  obtain k' v' where a: "a = (k', v')" by (cases a)
  show ?case
  proof (cases "k' = k")
    case True
    have "length (AList.delete k al) \<le> length al"
      by (simp add: AList.delete_eq)
    with True a show ?thesis by simp
  next
    case False
    with Cons a show ?thesis by simp
  qed
qed

function pullReady ::
  "16 word \<Rightarrow> (16 word \<times> PRUDPPacket) list \<Rightarrow>
   PRUDPPacket list \<times> 16 word \<times> (16 word \<times> PRUDPPacket) list" where
  "pullReady expected pending =
     (case map_of pending expected of
        None \<Rightarrow> ([], expected, pending)
      | Some packet \<Rightarrow>
          (case pullReady (expected + 1) (AList.delete expected pending) of
             (ready, expected', pending') \<Rightarrow> (packet # ready, expected', pending')))"
  by pat_completeness auto
termination
  by (relation "measure (\<lambda>(expected, pending). length pending)")
     (auto simp: length_delete_less)

declare pullReady.simps [simp del]

definition Update :: "ReliablePacketSubstreamManager \<Rightarrow> PRUDPPacket \<Rightarrow>
    PRUDPPacket list \<times> ReliablePacketSubstreamManager" where
  "Update substream packet =
     (case pullReady (incomingSequenceID substream)
             (AList.update (sequenceID packet) packet (pendingPackets substream)) of
        (ready, expected, pending) \<Rightarrow>
          (ready, substream\<lparr>incomingSequenceID := expected, pendingPackets := pending\<rparr>))"

definition AddFragment :: "bytes \<Rightarrow> ReliablePacketSubstreamManager \<Rightarrow>
    bytes \<times> ReliablePacketSubstreamManager" where
  "AddFragment fragment substream =
     (fragmentedPayload substream @ fragment,
      substream\<lparr>fragmentedPayload := fragmentedPayload substream @ fragment\<rparr>)"

definition ResetFragmentedPayload :: "ReliablePacketSubstreamManager \<Rightarrow>
    ReliablePacketSubstreamManager" where
  "ResetFragmentedPayload substream = substream\<lparr>fragmentedPayload := []\<rparr>"

text \<open>
  The body of the loop of \<open>handleReliable\<close> over the packets \<open>Update\<close> returned.  The
  tests are on \<open>packet\<close>, the packet just received, as the source has them; an RMC message
  is kept as the bytes it is decoded from.
\<close>

fun deliver :: "Env \<Rightarrow> PRUDPPacket list \<Rightarrow>
    PRUDPPacket \<times> ReliablePacketSubstreamManager \<times> world \<Rightarrow>
    PRUDPPacket \<times> ReliablePacketSubstreamManager \<times> world" where
  "deliver env [] st = st"
| "deliver env (pendingPacket # rest) (packet, substream, w) =
     (if packetType packet = DataPacket then
        (case Decrypt env substream (payload pendingPacket) of
           (plain, substream) \<Rightarrow>
             (case AddFragment plain substream of
                (payload', substream) \<Rightarrow>
                  if fragmentID packet = 0 then
                    (let substream = ResetFragmentedPayload substream;
                         packet = packet\<lparr>message := Some payload'\<rparr>
                     in deliver env rest (packet, substream, emit ''reliable-data'' packet w))
                  else deliver env rest (packet, substream, w)))
      else deliver env rest (packet, substream, w))"

definition handleReliable :: "Env \<Rightarrow> PRUDPPacket \<Rightarrow> world \<Rightarrow> world outcome" where
  "handleReliable env packet w =
     bindE (if FlagNeedsAck \<in> flags packet then acknowledgePacket env packet w else Inr w) (\<lambda>w.
       withSubstream (sender packet) (substreamID packet) w (\<lambda>substream.
         case Update substream packet of
           (ready, substream) \<Rightarrow>
             (case deliver env ready (packet, substream, w) of
                (packet', substream, w) \<Rightarrow>
                  Inr (putSubstream (sender packet) (substreamID packet) substream w))))"

definition handleUnreliable :: "PRUDPPacket \<Rightarrow> world \<Rightarrow> world outcome" where
  "handleUnreliable packet w = Inr w"

definition handleData :: "Env \<Rightarrow> PRUDPPacket \<Rightarrow> world \<Rightarrow> world outcome" where
  "handleData env packet w =
     (if FlagReliable \<in> flags packet then handleReliable env packet w
      else handleUnreliable packet w)"

definition handlePing :: "Env \<Rightarrow> PRUDPPacket \<Rightarrow> world \<Rightarrow> world outcome" where
  "handlePing env packet w =
     (if FlagNeedsAck \<in> flags packet then acknowledgePacket env packet w else Inr w)"

subsection \<open>Disconnect\<close>

text \<open>
  Modelled from the spec: \<open>cleanup\<close> stops the peer's timers and clears its substreams.
\<close>

definition cleanup :: "client_ref \<Rightarrow> world \<Rightarrow> world" where
  "cleanup ref w =
     w\<lparr>store := (store w)(ref := (store w ref)\<lparr>reliableSubstreams := []\<rparr>),
       trace := trace w @ [StopTimers ref]\<rparr>"

definition deleteClient :: "string \<Rightarrow> world \<Rightarrow> world" where
  "deleteClient discriminator w =
     w\<lparr>server := (server w)\<lparr>clients := (clients (server w))(discriminator := None)\<rparr>\<rparr>"

definition handleDisconnect :: "Env \<Rightarrow> PRUDPPacket \<Rightarrow> world \<Rightarrow> world outcome" where
  "handleDisconnect env packet w =
     bindE (if FlagNeedsAck \<in> flags packet then acknowledgePacket env packet w else Inr w) (\<lambda>w.
       let w = cleanup (sender packet) w;
           w = deleteClient (address (store w (sender packet))) w
       in Inr (emit ''disconnect'' packet w))"


subsection \<open>Kerberos ticket validation\<close>

definition ReadBuffer :: "StreamIn \<Rightarrow> panic + ((bytes \<times> goerror) \<times> StreamIn)" where
  "ReadBuffer stream =
     bindE (ReadUInt32LE stream) (\<lambda>((length', err), stream).
       case err of
         Some e \<Rightarrow> Inr (([], Some (''Failed to read NEX buffer length. '' @ e)), stream)
       | None \<Rightarrow>
           bindE (Remaining stream) (\<lambda>n.
             if n < unat length' then
               Inr (([], Some ''NEX buffer length longer than data size''), stream)
             else
               bindE (ReadBytesNext (unat length') stream) (\<lambda>(data, stream).
                 Inr ((data, None), stream))))"

text \<open>\<open>time.Minute\<close>, in nanoseconds.\<close>

definition Minute :: int where
  "Minute = 60 * 1000000000"

text \<open>
  \<open>readKerberosTicket\<close> returns the session key, the user PID, the check value and the
  error; on every error the first three are the zero values.  \<open>now\<close> is the reading of
  the clock (\<open>time.Now().UTC()\<close>); \<open>After\<close> is the strict order of times.
\<close>

definition readKerberosTicket ::
  "Env \<Rightarrow> int \<Rightarrow> PRUDPServer \<Rightarrow> bytes \<Rightarrow> panic + (bytes \<times> 32 word \<times> 32 word \<times> goerror)" where
  "readKerberosTicket env now s payload' =
     bindE (ReadBuffer (NewStreamIn payload')) (\<lambda>((ticketData, err), stream).
     case err of Some e \<Rightarrow> Inr ([], 0, 0, Some e) | None \<Rightarrow>
     bindE (ReadBuffer stream) (\<lambda>((requestData, err), stream).
     case err of Some e \<Rightarrow> Inr ([], 0, 0, Some e) | None \<Rightarrow>
     (let serverKey = DeriveKerberosKey env 2 (kerberosPassword s) in
      case TicketDecrypt env ticketData serverKey of
        Inl e \<Rightarrow> Inr ([], 0, 0, Some e)
      | Inr ticket \<Rightarrow>
          (let ticketTime = Standard env (Issued ticket);
               serverTime = now;
               timeLimit = ticketTime + Minute * 2
           in if serverTime > timeLimit then Inr ([], 0, 0, Some ''Kerberos ticket expired'')
              else
                (let sessionKey' = SessionKey ticket in
                 case KerberosDecrypt env sessionKey' requestData of
                   Inl e \<Rightarrow> Inr ([], 0, 0, Some e)
                 | Inr decryptedRequestData \<Rightarrow>
                     bindE (ReadUInt32LE (NewStreamIn decryptedRequestData))
                       (\<lambda>((userPID, err), checkDataStream).
                     case err of Some e \<Rightarrow> Inr ([], 0, 0, Some e) | None \<Rightarrow>
                     bindE (ReadUInt32LE checkDataStream) (\<lambda>((cid, err), checkDataStream).
                     case err of Some e \<Rightarrow> Inr ([], 0, 0, Some e) | None \<Rightarrow>
                     bindE (ReadUInt32LE checkDataStream) (\<lambda>((responseCheck, err), checkDataStream).
                     case err of Some e \<Rightarrow> Inr ([], 0, 0, Some e) | None \<Rightarrow>
                       Inr (sessionKey', userPID, responseCheck, None)))))))))"

subsection \<open>The handshake\<close>

text \<open>
  Modelled from the spec: \<open>reset\<close> clears the peer's signatures, session key,
  substreams and counters; \<open>createReliableSubstreams\<close> makes the substreams 0 to the
  maximum id, each starting at sequence id 1 with keystreams of the session key;
  \<open>SetPID\<close> and \<open>setSessionKey\<close> set the fields, the latter keying the substreams'
  keystreams.
\<close>

definition reset :: "PRUDPClient \<Rightarrow> PRUDPClient" where
  "reset client =
     client\<lparr>clientConnectionSignature := [], serverConnectionSignature := [],
            sessionKey := [], reliableSubstreams := [],
            outgoingUnreliableSequenceID := 0, outgoingPingSequenceID := 0\<rparr>"

definition NewReliablePacketSubstreamManager :: "bytes \<Rightarrow> ReliablePacketSubstreamManager" where
  "NewReliablePacketSubstreamManager k =
     \<lparr>incomingSequenceID = 1, outgoingSequenceID = 1, pendingPackets = [],
      fragmentedPayload = [], cipher = \<lparr>rc4key = k, rc4pos = 0\<rparr>,
      decipher = \<lparr>rc4key = k, rc4pos = 0\<rparr>, ResendScheduler = []\<rparr>"

definition createReliableSubstreams :: "byte \<Rightarrow> PRUDPClient \<Rightarrow> PRUDPClient" where
  "createReliableSubstreams maxSubstreamID client =
     client\<lparr>reliableSubstreams :=
       replicate (unat maxSubstreamID + 1) (NewReliablePacketSubstreamManager (sessionKey client))\<rparr>"

definition SetPID :: "32 word \<Rightarrow> PRUDPClient \<Rightarrow> PRUDPClient" where
  "SetPID p client = client\<lparr>pid := p\<rparr>"

definition setSessionKey :: "bytes \<Rightarrow> PRUDPClient \<Rightarrow> PRUDPClient" where
  "setSessionKey k client =
     client\<lparr>sessionKey := k,
            reliableSubstreams :=
              map (\<lambda>substream. substream\<lparr>cipher := \<lparr>rc4key = k, rc4pos = 0\<rparr>,
                                          decipher := \<lparr>rc4key = k, rc4pos = 0\<rparr>\<rparr>)
                  (reliableSubstreams client)\<rparr>"

definition updClient :: "client_ref \<Rightarrow> (PRUDPClient \<Rightarrow> PRUDPClient) \<Rightarrow> world \<Rightarrow> world" where
  "updClient ref f w = w\<lparr>store := (store w)(ref := f (store w ref))\<rparr>"

definition handleSyn :: "Env \<Rightarrow> PRUDPPacket \<Rightarrow> world \<Rightarrow> world outcome" where
  "handleSyn env packet w =
     (let ref = sender packet;
          ack = NewPRUDPPacket (if version packet = 0 then 0 else 1) ref;
          connectionSignature' = calculateConnectionSignature env packet (address (store w ref));
          w = updClient ref reset w;
          w = updClient ref (\<lambda>client. client\<lparr>
                clientConnectionSignature := connectionSignature',
                clientSourceStreamType := sourceStreamType packet,
                clientSourcePort := sourcePort packet,
                clientDestinationStreamType := destinationStreamType packet,
                clientDestinationPort := destinationPort packet\<rparr>) w;
          ack = ack\<lparr>packetType := SynPacket\<rparr>;
          ack = ack\<lparr>flags := insert FlagAck (flags ack)\<rparr>;
          ack = ack\<lparr>flags := insert FlagHasSize (flags ack)\<rparr>;
          ack = ack\<lparr>sourceStreamType := destinationStreamType packet\<rparr>;
          ack = ack\<lparr>sourcePort := destinationPort packet\<rparr>;
          ack = ack\<lparr>destinationStreamType := sourceStreamType packet\<rparr>;
          ack = ack\<lparr>destinationPort := sourcePort packet\<rparr>;
          ack = ack\<lparr>connectionSignature := connectionSignature'\<rparr>;
          ack = ack\<lparr>signature := calculateSignature env ack [] []\<rparr>;
          w = emit ''syn'' ack w
      in Inr (sendRaw (address (store w ref)) (Bytes env ack) w))"

text \<open>
  \<open>handleConnect\<close>.  The error of \<open>readKerberosTicket\<close> is printed and nothing else
  is done about it: the lines that follow use the values returned with it.
\<close>

definition handleConnect :: "Env \<Rightarrow> int \<Rightarrow> PRUDPPacket \<Rightarrow> world \<Rightarrow> world outcome" where
  "handleConnect env now packet w =
     (let ref = sender packet;
          ack = NewPRUDPPacket (if version packet = 0 then 0 else 1) ref;
          w = updClient ref (\<lambda>client. client\<lparr>serverConnectionSignature := connectionSignature packet\<rparr>) w;
          connectionSignature' = calculateConnectionSignature env packet (address (store w ref));
          ack = ack\<lparr>packetType := ConnectPacket\<rparr>;
          ack = ack\<lparr>flags := insert FlagAck (flags ack)\<rparr>;
          ack = ack\<lparr>flags := insert FlagHasSize (flags ack)\<rparr>;
          ack = ack\<lparr>sourceStreamType := destinationStreamType packet\<rparr>;
          ack = ack\<lparr>sourcePort := destinationPort packet\<rparr>;
          ack = ack\<lparr>destinationStreamType := sourceStreamType packet\<rparr>;
          ack = ack\<lparr>destinationPort := sourcePort packet\<rparr>;
          ack = ack\<lparr>connectionSignature := replicate (length connectionSignature') 0\<rparr>;
          ack = ack\<lparr>sessionID := 0\<rparr>;
          ack = ack\<lparr>sequenceID := 1\<rparr>;
          (ack, w) =
            (if version ack \<noteq> 0 then
               (let ack = ack\<lparr>maximumSubstreamID := maximumSubstreamID packet,
                              minorVersion := minorVersion packet,
                              supportedFunctions := supportedFunctions packet\<rparr>
                in (ack, updClient ref (\<lambda>client.
                      createReliableSubstreams (maximumSubstreamID ack)
                        (client\<lparr>clientMinorVersion := minorVersion ack,
                                clientSupportedFunctions := supportedFunctions ack\<rparr>)) w))
             else (ack, updClient ref (createReliableSubstreams 0) w))
      in bindE
           (if IsSecureServer (server w) then
              (case readKerberosTicket env now (server w) (payload packet) of
                 Inl p \<Rightarrow> Inl (p, w)
               | Inr (sessionKey', pid', checkValue, err) \<Rightarrow>
                   (let w = (case err of None \<Rightarrow> w
                             | Some e \<Rightarrow> w\<lparr>trace := trace w @ [Println e]\<rparr>);
                        w = updClient ref (SetPID pid') w;
                        w = updClient ref (setSessionKey sessionKey') w
                    in case bindE (WriteUInt32LE 4 NewStreamOut) (WriteUInt32LE (checkValue + 1)) of
                         Inl p \<Rightarrow> Inl (p, w)
                       | Inr stream \<Rightarrow> Inr (obuf stream, w)))
            else Inr ([], w))
           (\<lambda>(payload', w).
              let ack = ack\<lparr>payload := payload'\<rparr>;
                  ack = ack\<lparr>signature := calculateSignature env ack [] (connectionSignature packet)\<rparr>;
                  w = emit ''connect'' ack w
              in Inr (sendRaw (address (store w ref)) (Bytes env ack) w)))"

subsection \<open>Acknowledgments\<close>

text \<open>
  The two loops that collect the acknowledged sequence ids.  The new format reads as many
  ids as the count says.  The old format reads while bytes remain; a read that fails
  consumes nothing, so the loop need not end: it is a partial function, \<open>None\<close> when it
  does not return.
\<close>

fun readAdditionalIDs :: "nat \<Rightarrow> StreamIn \<Rightarrow> 16 word list \<Rightarrow> panic + (16 word list \<times> StreamIn)" where
  "readAdditionalIDs 0 stream sequenceIDs = Inr (sequenceIDs, stream)"
| "readAdditionalIDs (Suc n) stream sequenceIDs =
     bindE (ReadUInt16LE stream) (\<lambda>((additionalID, err), stream).
       readAdditionalIDs n stream (sequenceIDs @ [additionalID]))"

partial_function (option) readRemainingIDs ::
  "StreamIn \<Rightarrow> 16 word list \<Rightarrow> (panic + 16 word list) option" where
  "readRemainingIDs stream sequenceIDs =
     (case Remaining stream of
        Inl p \<Rightarrow> Some (Inl p)
      | Inr n \<Rightarrow>
          if n > 0 then
            (case ReadUInt16LE stream of
               Inl p \<Rightarrow> Some (Inl p)
             | Inr ((additionalID, err), stream') \<Rightarrow>
                 readRemainingIDs stream' (sequenceIDs @ [additionalID]))
          else Some (Inr sequenceIDs))"

declare readRemainingIDs.simps [code]

text \<open>
  The pass over the scheduler's map (\<open>Each\<close>) and the removal of the collected ids.
\<close>

definition collectInFlight ::
  "16 word \<Rightarrow> (16 word \<times> PRUDPPacket) list \<Rightarrow> 16 word list \<Rightarrow> 16 word list" where
  "collectInFlight baseSequenceID pendings sequenceIDs =
     foldl (\<lambda>ids (sequenceID', pending).
              if sequenceID' \<le> baseSequenceID \<and> sequenceID' \<notin> set ids
              then ids @ [sequenceID'] else ids)
           sequenceIDs pendings"

definition acknowledgeAll ::
  "16 word list \<Rightarrow> ReliablePacketSubstreamManager \<Rightarrow> ReliablePacketSubstreamManager" where
  "acknowledgeAll sequenceIDs substream =
     foldl (\<lambda>substream sequenceID'. AcknowledgePacket sequenceID' substream) substream sequenceIDs"

definition finishMultiAck ::
  "client_ref \<Rightarrow> byte \<Rightarrow> ReliablePacketSubstreamManager \<Rightarrow> 16 word \<Rightarrow> 16 word list \<Rightarrow>
   world \<Rightarrow> world" where
  "finishMultiAck ref sid substream baseSequenceID sequenceIDs w =
     putSubstream ref sid
       (acknowledgeAll
          (collectInFlight baseSequenceID (ResendScheduler substream) sequenceIDs) substream) w"

definition liftP :: "world \<Rightarrow> panic + 'a \<Rightarrow> ('a \<Rightarrow> 'b outcome) \<Rightarrow> 'b outcome" where
  "liftP w m f = (case m of Inl p \<Rightarrow> Inl (p, w) | Inr a \<Rightarrow> f a)"

definition handleMultiAcknowledgment :: "PRUDPPacket \<Rightarrow> world \<Rightarrow> world outcome option" where
  "handleMultiAcknowledgment packet w =
     (let ref = sender packet;
          stream = NewStreamIn (payload packet)
      in if substreamID packet = 1 then
           Some (
             liftP w (ReadUInt8 stream) (\<lambda>((substreamID', err), stream).
             liftP w (ReadUInt8 stream) (\<lambda>((additionalIDsCount, err), stream).
             liftP w (ReadUInt16LE stream) (\<lambda>((baseSequenceID, err), stream).
             withSubstream ref substreamID' w (\<lambda>substream.
             liftP w (readAdditionalIDs (unat additionalIDsCount) stream []) (\<lambda>(sequenceIDs, stream).
               Inr (finishMultiAck ref substreamID' substream baseSequenceID sequenceIDs w)))))))
         else
           (case reliableSubstream (store w ref) 0 of
              Inl p \<Rightarrow> Some (Inl (p, w))
            | Inr substream \<Rightarrow>
                (case readRemainingIDs stream [] of
                   None \<Rightarrow> None
                 | Some r \<Rightarrow>
                     Some (liftP w r (\<lambda>sequenceIDs.
                       Inr (finishMultiAck ref 0 substream (sequenceID packet) sequenceIDs w))))))"

definition handleAcknowledgment :: "PRUDPPacket \<Rightarrow> world \<Rightarrow> world outcome option" where
  "handleAcknowledgment packet w =
     (if FlagMultiAck \<in> flags packet then handleMultiAcknowledgment packet w
      else Some (
        withSubstream (sender packet) (substreamID packet) w (\<lambda>substream.
          Inr (putSubstream (sender packet) (substreamID packet)
                 (AcknowledgePacket (sequenceID packet) substream) w))))"

subsection \<open>The dispatcher\<close>

text \<open>
  Modelled from the spec: \<open>resetHeartbeat\<close> re-arms the peer's heartbeat timer.
\<close>

definition resetHeartbeat :: "client_ref \<Rightarrow> world \<Rightarrow> world" where
  "resetHeartbeat ref w = w\<lparr>trace := trace w @ [ResetHeartbeat ref]\<rparr>"

definition processPacket :: "Env \<Rightarrow> int \<Rightarrow> PRUDPPacket \<Rightarrow> world \<Rightarrow> world outcome option" where
  "processPacket env now packet w =
     (let w = resetHeartbeat (sender packet) w in
      if FlagAck \<in> flags packet \<or> FlagMultiAck \<in> flags packet then handleAcknowledgment packet w
      else
        (case packetType packet of
           SynPacket \<Rightarrow> Some (handleSyn env packet w)
         | ConnectPacket \<Rightarrow> Some (handleConnect env now packet w)
         | DataPacket \<Rightarrow> Some (handleData env packet w)
         | DisconnectPacket \<Rightarrow> Some (handleDisconnect env packet w)
         | PingPacket \<Rightarrow> Some (handlePing env packet w)
         | OtherPacket \<Rightarrow> Some (Inr w)))"

subsection \<open>Send\<close>






section \<open>What the claims say, as predicates\<close>

text \<open>
  A fixed-width read of \<open>width\<close> bytes conforms when, on a stream with fewer bytes left,
  it returns the zero value with an error and the stream as it was, and otherwise returns
  the value decoded from the next \<open>width\<close> bytes, no error, and the stream moved on by
  \<open>width\<close>.
\<close>

definition fixedWidthRead ::
  "nat \<Rightarrow> 'a \<Rightarrow> (bytes \<Rightarrow> 'a) \<Rightarrow> StreamIn \<Rightarrow> panic + (('a \<times> goerror) \<times> StreamIn) \<Rightarrow> bool" where
  "fixedWidthRead width zero decode stream result =
     (if length (buf stream) - boff stream < width
      then (case result of Inr ((v, Some e), stream') \<Rightarrow> v = zero \<and> stream' = stream | _ \<Rightarrow> False)
      else result = Inr ((decode (take width (drop (boff stream) (buf stream))), None),
                         stream\<lparr>boff := boff stream + width\<rparr>))"


text \<open>
  The signature of a packet is computed from its header, options and payload, not from
  the signature it already carries: this is what makes a packet sent twice the same bytes.
  \<open>ackSent packet ack\<close>: \<open>ack\<close> is an acknowledgment of \<open>packet\<close>.  The other
  definitions read a handler's outcome: the world it leaves, returning or panicking, and
  the effects it added.
\<close>

definition signatureIgnoresSignature :: "Env \<Rightarrow> bool" where
  "signatureIgnoresSignature env =
     (\<forall>p s k c. calculateSignature env (p\<lparr>signature := s\<rparr>) k c = calculateSignature env p k c)"

definition ackSent :: "PRUDPPacket \<Rightarrow> PRUDPPacket \<Rightarrow> bool" where
  "ackSent packet ack =
     (packetType ack = packetType packet \<and> FlagAck \<in> flags ack
      \<and> sequenceID ack = sequenceID packet
      \<and> sourceStreamType ack = destinationStreamType packet
      \<and> sourcePort ack = destinationPort packet
      \<and> destinationStreamType ack = sourceStreamType packet
      \<and> destinationPort ack = sourcePort packet
      \<and> fragmentID ack = fragmentID packet \<and> substreamID ack = substreamID packet)"

definition handlersOf :: "PRUDPServer \<Rightarrow> string \<Rightarrow> nat list" where
  "handlersOf s name = (case eventHandlers s name of None \<Rightarrow> [] | Some handlers \<Rightarrow> handlers)"

fun isSendRaw :: "effect \<Rightarrow> bool" where
  "isSendRaw (SendRaw a d) = True"
| "isSendRaw e = False"

fun isSpawnOf :: "string \<Rightarrow> effect \<Rightarrow> bool" where
  "isSpawnOf name (Spawn n h p) = (n = name)"
| "isSpawnOf name e = False"

fun finalWorld :: "world outcome \<Rightarrow> world" where
  "finalWorld (Inl (p, w)) = w"
| "finalWorld (Inr w) = w"

definition newEffects :: "world \<Rightarrow> world \<Rightarrow> effect list" where
  "newEffects w w' = drop (length (trace w)) (trace w')"



definition sendFrame :: "PRUDPPacket \<Rightarrow> world \<Rightarrow> PRUDPPacket \<Rightarrow> world \<Rightarrow> bool" where
  "sendFrame p w p' w' =
     (fragmentID p' = fragmentID p \<and> flags p' = flags p \<and> sender p' = sender p
      \<and> substreamID p' = substreamID p \<and> packetType p' = packetType p
      \<and> server w' = server w \<and> trace w' = trace w
      \<and> (\<forall>r. address (store w' r) = address (store w r))
      \<and> (\<forall>r. length (reliableSubstreams (store w' r)) = length (reliableSubstreams (store w r))))"

text \<open>A byte string as a NEX buffer: its length as uint32 LE, then the bytes.\<close>

definition nexBuffer :: "bytes \<Rightarrow> bytes" where
  "nexBuffer d = le_bytes 4 (of_nat (length d) :: 32 word) @ d"

text \<open>A list of sequence ids as the bytes of a multi-ACK payload: each a uint16 LE.\<close>

definition le16s :: "16 word list \<Rightarrow> bytes" where
  "le16s ids = concat (map (le_bytes 2) ids)"

section \<open>Concrete inputs\<close>

text \<open>
  One instance of the parameters, a peer with substream 0, a server and a packet, on
  which the handlers are run below.  The sample codec writes the sequence id, the fragment
  id and the payload; the sample cipher is the identity; the sample ticket is eight bytes
  of issue time in seconds followed by the session key.
\<close>

definition sampleEnv :: Env where
  "sampleEnv =
     \<lparr>calculateSignature = (\<lambda>p k c. k @ c),
      calculateConnectionSignature = (\<lambda>p a. [1, 2, 3, 4]),
      Bytes = (\<lambda>p. [ucast (sequenceID p), fragmentID p] @ payload p),
      XORKeyStream = (\<lambda>c d. d),
      DeriveKerberosKey = (\<lambda>p pw. pw),
      TicketDecrypt = (\<lambda>d k. if length d < 8 then Inl ''bad ticket''
                               else Inr \<lparr>Issued = le_word (take 8 d), SourcePID = 0,
                                         SessionKey = drop 8 d\<rparr>),
      KerberosDecrypt = (\<lambda>k d. Inr d),
      Standard = (\<lambda>t. uint t * 1000000000)\<rparr>"

definition sampleClient :: PRUDPClient where
  "sampleClient =
     \<lparr>address = ''10.0.0.1:5000'', pid = 0, sessionKey = [],
      clientConnectionSignature = [], serverConnectionSignature = [],
      clientSourceStreamType = 0, clientSourcePort = 0,
      clientDestinationStreamType = 0, clientDestinationPort = 0,
      clientMinorVersion = 0, clientSupportedFunctions = 0,
      reliableSubstreams = [NewReliablePacketSubstreamManager []],
      outgoingUnreliableSequenceID = 0, outgoingPingSequenceID = 0\<rparr>"

definition sampleServer :: PRUDPServer where
  "sampleServer =
     \<lparr>clients = [''10.0.0.1:5000'' \<mapsto> 0], PRUDPVersion = 1, IsSecureServer = True,
      kerberosPassword = [], FragmentSize = 4,
      eventHandlers = [''reliable-data'' \<mapsto> [7], ''disconnect'' \<mapsto> [8]]\<rparr>"

definition sampleWorld :: world where
  "sampleWorld = \<lparr>server = sampleServer, store = (\<lambda>ref. sampleClient), trace = []\<rparr>"

definition samplePacket :: "PacketType \<Rightarrow> Flag set \<Rightarrow> 16 word \<Rightarrow> bytes \<Rightarrow> PRUDPPacket" where
  "samplePacket t fl sq pl =
     (NewPRUDPPacket 1 0)\<lparr>packetType := t, flags := fl, sequenceID := sq, payload := pl,
                          sourceStreamType := 10, sourcePort := 15,
                          destinationStreamType := 10, destinationPort := 1\<rparr>"


text \<open>The sample world with sequence id 5 of substream 0 awaiting its acknowledgment.\<close>

definition busyWorld :: world where
  "busyWorld =
     sampleWorld\<lparr>store := (\<lambda>ref. sampleClient\<lparr>reliableSubstreams :=
        [(NewReliablePacketSubstreamManager [])\<lparr>ResendScheduler :=
           [(5, samplePacket DataPacket {FlagReliable, FlagNeedsAck} 5 [1])]\<rparr>]\<rparr>)\<rparr>"

text \<open>
  A sample CONNECT: the ticket, issued at second 1000 with session key \<open>[9, 9]\<close>, and the
  request block of user 1234 with check value \<open>0xDEADBEEF\<close>, each as a length-prefixed
  buffer.  \<open>returningWorld\<close> is the sample world with the peer already known as user 77.
\<close>

definition sampleTicketData :: bytes where
  "sampleTicketData = [232, 3, 0, 0, 0, 0, 0, 0, 9, 9]"

definition sampleRequestData :: bytes where
  "sampleRequestData =
     le_bytes 4 (1234 :: 32 word) @ le_bytes 4 (0 :: 32 word) @ le_bytes 4 (0xDEADBEEF :: 32 word)"

definition sampleConnect :: PRUDPPacket where
  "sampleConnect =
     samplePacket ConnectPacket {FlagNeedsAck} 1
       (nexBuffer sampleTicketData @ nexBuffer sampleRequestData)"

definition returningWorld :: world where
  "returningWorld = sampleWorld\<lparr>store := (\<lambda>ref. sampleClient\<lparr>pid := 77, sessionKey := [5]\<rparr>)\<rparr>"

text \<open>An old-format multi-ACK (substream id 0) with a payload of one byte.\<close>

definition oddMultiAck :: PRUDPPacket where
  "oddMultiAck = samplePacket DataPacket {FlagMultiAck} 10 [7]"

section \<open>Stream reads\<close>

lemma Remaining_NewStreamIn: "Remaining (NewStreamIn data) = Inr (length data)"
  by (simp add: Remaining_def NewStreamIn_def)

lemma take1_drop: "n < length xs \<Longrightarrow> take (Suc 0) (drop n xs) = [xs ! n]"
  by (metis Cons_nth_drop_Suc take0 take_Suc_Cons)

lemma guarded_bytes:
  assumes "boff stream \<le> length (buf stream)"
  shows "fixedWidthRead n zero (\<lambda>bs. conv (dec bs)) stream
           (guarded n msg zero (\<lambda>s. map_sum id (map_prod dec id) (ReadBytesNext n s)) conv stream)"
  using assms
  by (auto simp: fixedWidthRead_def guarded_def Remaining_def ReadBytesNext_def)

lemma guarded_byte:
  assumes "boff stream \<le> length (buf stream)"
  shows "fixedWidthRead 1 zero (\<lambda>bs. conv (le_word bs)) stream
           (guarded 1 msg zero ReadByteNext conv stream)"
  using assms
  by (auto simp: fixedWidthRead_def guarded_def Remaining_def ReadByteNext_def take1_drop)

lemmas crunch_reads =
  ReadU16LENext_def[abs_def] ReadU16BENext_def[abs_def] ReadU32LENext_def[abs_def]
  ReadU32BENext_def[abs_def] ReadU64LENext_def[abs_def] ReadU64BENext_def[abs_def]


text \<open>
  C9.  Every fixed-width typed read of \<open>StreamIn\<close> (unsigned, signed, float and bool,
  either byte order), on a stream whose offset lies within its buffer: with fewer bytes
  left than the width of the type it returns the zero value and an error and leaves the
  offset where it was; otherwise it returns the decoded value and moves the offset by
  exactly the width.
\<close>

theorem StreamIn_fixed_width_reads:
  assumes "boff stream \<le> length (buf stream)"
  shows "fixedWidthRead 1 0 le_word stream (ReadUInt8 stream)
       \<and> fixedWidthRead 1 0 (\<lambda>bs. sint (le_word bs :: 8 word)) stream (ReadInt8 stream)
       \<and> fixedWidthRead 2 0 le_word stream (ReadUInt16LE stream)
       \<and> fixedWidthRead 2 0 be_word stream (ReadUInt16BE stream)
       \<and> fixedWidthRead 2 0 (\<lambda>bs. sint (le_word bs :: 16 word)) stream (ReadInt16LE stream)
       \<and> fixedWidthRead 2 0 (\<lambda>bs. sint (be_word bs :: 16 word)) stream (ReadInt16BE stream)
       \<and> fixedWidthRead 4 0 le_word stream (ReadUInt32LE stream)
       \<and> fixedWidthRead 4 0 be_word stream (ReadUInt32BE stream)
       \<and> fixedWidthRead 4 0 (\<lambda>bs. sint (le_word bs :: 32 word)) stream (ReadInt32LE stream)
       \<and> fixedWidthRead 4 0 (\<lambda>bs. sint (be_word bs :: 32 word)) stream (ReadInt32BE stream)
       \<and> fixedWidthRead 8 0 le_word stream (ReadUInt64LE stream)
       \<and> fixedWidthRead 8 0 be_word stream (ReadUInt64BE stream)
       \<and> fixedWidthRead 8 0 (\<lambda>bs. sint (le_word bs :: 64 word)) stream (ReadInt64LE stream)
       \<and> fixedWidthRead 8 0 (\<lambda>bs. sint (be_word bs :: 64 word)) stream (ReadInt64BE stream)
       \<and> fixedWidthRead 4 0 le_word stream (ReadFloat32LE stream)
       \<and> fixedWidthRead 4 0 be_word stream (ReadFloat32BE stream)
       \<and> fixedWidthRead 8 0 le_word stream (ReadFloat64LE stream)
       \<and> fixedWidthRead 8 0 be_word stream (ReadFloat64BE stream)
       \<and> fixedWidthRead 1 False (\<lambda>bs. (le_word bs :: 8 word) = 1) stream (ReadBool stream)"
proof -
  note b = guarded_byte[OF assms] and n = guarded_bytes[OF assms]
  have u8: "fixedWidthRead 1 0 le_word stream (ReadUInt8 stream)"
    using b[of 0 id] by (simp add: ReadUInt8_def)
  have i8: "fixedWidthRead 1 0 (\<lambda>bs. sint (le_word bs :: 8 word)) stream (ReadInt8 stream)"
    using b[of 0 sint] by (simp add: ReadInt8_def)
  have u16l: "fixedWidthRead 2 0 le_word stream (ReadUInt16LE stream)"
    using n[of 2 0 id le_word] by (simp add: ReadUInt16LE_def crunch_reads)
  have u16b: "fixedWidthRead 2 0 be_word stream (ReadUInt16BE stream)"
    using n[of 2 0 id be_word] by (simp add: ReadUInt16BE_def crunch_reads)
  have i16l: "fixedWidthRead 2 0 (\<lambda>bs. sint (le_word bs :: 16 word)) stream (ReadInt16LE stream)"
    using n[of 2 0 sint le_word] by (simp add: ReadInt16LE_def crunch_reads)
  have i16b: "fixedWidthRead 2 0 (\<lambda>bs. sint (be_word bs :: 16 word)) stream (ReadInt16BE stream)"
    using n[of 2 0 sint be_word] by (simp add: ReadInt16BE_def crunch_reads)
  have u32l: "fixedWidthRead 4 0 le_word stream (ReadUInt32LE stream)"
    using n[of 4 0 id le_word] by (simp add: ReadUInt32LE_def crunch_reads)
  have u32b: "fixedWidthRead 4 0 be_word stream (ReadUInt32BE stream)"
    using n[of 4 0 id be_word] by (simp add: ReadUInt32BE_def crunch_reads)
  have i32l: "fixedWidthRead 4 0 (\<lambda>bs. sint (le_word bs :: 32 word)) stream (ReadInt32LE stream)"
    using n[of 4 0 sint le_word] by (simp add: ReadInt32LE_def crunch_reads)
  have i32b: "fixedWidthRead 4 0 (\<lambda>bs. sint (be_word bs :: 32 word)) stream (ReadInt32BE stream)"
    using n[of 4 0 sint be_word] by (simp add: ReadInt32BE_def crunch_reads)
  have u64l: "fixedWidthRead 8 0 le_word stream (ReadUInt64LE stream)"
    using n[of 8 0 id le_word] by (simp add: ReadUInt64LE_def crunch_reads)
  have u64b: "fixedWidthRead 8 0 be_word stream (ReadUInt64BE stream)"
    using n[of 8 0 id be_word] by (simp add: ReadUInt64BE_def crunch_reads)
  have i64l: "fixedWidthRead 8 0 (\<lambda>bs. sint (le_word bs :: 64 word)) stream (ReadInt64LE stream)"
    using n[of 8 0 sint le_word] by (simp add: ReadInt64LE_def crunch_reads)
  have i64b: "fixedWidthRead 8 0 (\<lambda>bs. sint (be_word bs :: 64 word)) stream (ReadInt64BE stream)"
    using n[of 8 0 sint be_word] by (simp add: ReadInt64BE_def crunch_reads)
  have f32l: "fixedWidthRead 4 0 le_word stream (ReadFloat32LE stream)"
    using n[of 4 0 id le_word] by (simp add: ReadFloat32LE_def crunch_reads)
  have f32b: "fixedWidthRead 4 0 be_word stream (ReadFloat32BE stream)"
    using n[of 4 0 id be_word] by (simp add: ReadFloat32BE_def crunch_reads)
  have f64l: "fixedWidthRead 8 0 le_word stream (ReadFloat64LE stream)"
    using n[of 8 0 id le_word] by (simp add: ReadFloat64LE_def crunch_reads)
  have f64b: "fixedWidthRead 8 0 be_word stream (ReadFloat64BE stream)"
    using n[of 8 0 id be_word] by (simp add: ReadFloat64BE_def crunch_reads)
  have bl: "fixedWidthRead 1 False (\<lambda>bs. (le_word bs :: 8 word) = 1) stream (ReadBool stream)"
    using b[of False "\<lambda>b. b = 1"] by (simp add: ReadBool_def)
  from u8 i8 u16l u16b i16l i16b u32l u32b i32l i32b u64l u64b i64l i64b f32l f32b f64l f64b bl
  show ?thesis by blast
qed

theorem StreamIn_fixed_width_reads_witness:
  "boff \<lparr>buf = [1, 2, 3], boff = 1\<rparr> \<le> length (buf \<lparr>buf = [1, 2, 3], boff = 1\<rparr>)
   \<and> ReadUInt8 \<lparr>buf = [1, 2, 3], boff = 1\<rparr> = Inr ((2, None), \<lparr>buf = [1, 2, 3], boff = 2\<rparr>)
   \<and> ReadUInt16LE \<lparr>buf = [1, 2, 3], boff = 1\<rparr> = Inr ((0x0302, None), \<lparr>buf = [1, 2, 3], boff = 3\<rparr>)
   \<and> ReadUInt16BE \<lparr>buf = [1, 2, 3], boff = 1\<rparr> = Inr ((0x0203, None), \<lparr>buf = [1, 2, 3], boff = 3\<rparr>)
   \<and> (\<exists>e. ReadUInt32LE \<lparr>buf = [1, 2, 3], boff = 1\<rparr> = Inr ((0, Some e), \<lparr>buf = [1, 2, 3], boff = 1\<rparr>))"
  using StreamIn_fixed_width_reads [of "\<lparr>buf = [1, 2, 3], boff = 1\<rparr>"]
  by (auto simp: fixedWidthRead_def be_word_def split: sum.splits option.splits)


section \<open>Acknowledgments sent by the server\<close>

lemma sendPacket_ack:
  assumes "FlagAck \<in> flags p" "FlagReliable \<notin> flags p"
  shows "sendPacket env p w =
           Inr (p\<lparr>signature := calculateSignature env p (sessionKey (store w (sender p)))
                                   (serverConnectionSignature (store w (sender p)))\<rparr>,
                sendRaw (address (store w (sender p)))
                  (Bytes env (p\<lparr>signature := calculateSignature env p (sessionKey (store w (sender p)))
                                   (serverConnectionSignature (store w (sender p)))\<rparr>)) w)"
  using assms
  by (simp add: sendPacket_def assignSequenceID_def encryptPayload_def scheduleResend_def
                bindE_def Let_def)

lemma sendRaw_simps [simp]:
  "store (sendRaw a d w) = store w" "server (sendRaw a d w) = server w"
  "trace (sendRaw a d w) = trace w @ [SendRaw a d]"
  by (simp_all add: sendRaw_def)

lemma emit_simps [simp]:
  "store (emit name p w) = store w" "server (emit name p w) = server w"
  "trace (emit name p w) = trace w @ map (\<lambda>h. Spawn name h p) (handlersOf (server w) name)"
  by (simp_all add: emit_def handlersOf_def split: option.splits)

lemma acknowledgePacket_sends:
  assumes "packetType packet = DisconnectPacket \<longrightarrow> signatureIgnoresSignature env"
  shows "\<exists>ack. ackSent packet ack \<and>
           acknowledgePacket env packet w =
             Inr (w\<lparr>trace := trace w @
                    replicate (if packetType packet = DisconnectPacket then 3 else 1)
                      (SendRaw (address (store w (sender packet))) (Bytes env ack))\<rparr>)"
proof -
  define ack0 where "ack0 = (NewPRUDPPacket (if version packet = 0 then 0 else 1) (sender packet))
     \<lparr>packetType := packetType packet, flags := {FlagAck},
      sourceStreamType := destinationStreamType packet, sourcePort := destinationPort packet,
      destinationStreamType := sourceStreamType packet, destinationPort := sourcePort packet,
      sequenceID := sequenceID packet, fragmentID := fragmentID packet,
      substreamID := substreamID packet\<rparr>"
  define sg where "sg = calculateSignature env ack0 (sessionKey (store w (sender packet)))
                                   (serverConnectionSignature (store w (sender packet)))"
  define ack where "ack = ack0\<lparr>signature := sg\<rparr>"
  have f: "FlagAck \<in> flags ack0" "FlagReliable \<notin> flags ack0" "sender ack0 = sender packet"
    "FlagAck \<in> flags ack" "FlagReliable \<notin> flags ack" "sender ack = sender packet"
    by (simp_all add: ack0_def ack_def NewPRUDPPacket_def)
  have s1: "sendPacket env ack0 w' =
              Inr (ack, sendRaw (address (store w' (sender packet))) (Bytes env ack) w')"
    if "store w' = store w" for w'
    using that by (simp add: sendPacket_ack f ack_def sg_def)
  have a: "ackSent packet ack"
    by (simp add: ackSent_def ack_def ack0_def NewPRUDPPacket_def)
  have unfolded: "acknowledgePacket env packet w =
          bindE (sendPacket env ack0 w) (\<lambda>(ack, w).
           if packetType packet = DisconnectPacket then
             bindE (sendPacket env ack w) (\<lambda>(ack, w).
             bindE (sendPacket env ack w) (\<lambda>(ack, w). Inr w))
           else Inr w)"
    by (simp add: acknowledgePacket_def Let_def ack0_def NewPRUDPPacket_def)
  show ?thesis
  proof (cases "packetType packet = DisconnectPacket")
    case False
    then have "acknowledgePacket env packet w =
        Inr (w\<lparr>trace := trace w @ replicate (if packetType packet = DisconnectPacket then 3 else 1)
                      (SendRaw (address (store w (sender packet))) (Bytes env ack))\<rparr>)"
      by (simp add: unfolded s1 bindE_def sendRaw_def)
    with a show ?thesis by blast
  next
    case True
    with assms have "signatureIgnoresSignature env" by simp
    then have sg': "calculateSignature env ack k c = calculateSignature env ack0 k c" for k c
      by (simp add: signatureIgnoresSignature_def ack_def)
    have s2: "sendPacket env ack w' =
                Inr (ack, sendRaw (address (store w' (sender packet))) (Bytes env ack) w')"
      if "store w' = store w" for w'
      using that by (simp add: sendPacket_ack f sg') (simp add: ack_def sg_def)
    from True have "acknowledgePacket env packet w =
        Inr (w\<lparr>trace := trace w @ replicate (if packetType packet = DisconnectPacket then 3 else 1)
                      (SendRaw (address (store w (sender packet))) (Bytes env ack))\<rparr>)"
      by (simp add: unfolded s1 s2 bindE_def sendRaw_def numeral_3_eq_3)
    with a show ?thesis by blast
  qed
qed

lemma deliver_frame:
  "deliver env ready (packet, substream, w) = (packet', substream', w') \<Longrightarrow>
     server w' = server w \<and> store w' = store w
     \<and> (\<exists>rest. trace w' = trace w @ rest \<and> list_all (isSpawnOf ''reliable-data'') rest)"
proof (induction ready arbitrary: packet substream w)
  case Nil
  then show ?case by simp
next
  case (Cons pendingPacket rest)
  show ?case
  proof (cases "packetType packet = DataPacket")
    case False
    with Cons.prems have "deliver env rest (packet, substream, w) = (packet', substream', w')"
      by simp
    from Cons.IH[OF this] show ?thesis .
  next
    case True
    obtain plain s1 where d: "Decrypt env substream (payload pendingPacket) = (plain, s1)"
      by (cases "Decrypt env substream (payload pendingPacket)")
    obtain pl s2 where a: "AddFragment plain s1 = (pl, s2)"
      by (cases "AddFragment plain s1")
    show ?thesis
    proof (cases "fragmentID packet = 0")
      case False
      with Cons.prems True d a
      have "deliver env rest (packet, s2, w) = (packet', substream', w')"
        by simp
      from Cons.IH[OF this] show ?thesis .
    next
      case f0: True
      let ?p = "packet\<lparr>message := Some pl\<rparr>"
      let ?w = "emit ''reliable-data'' ?p w"
      from Cons.prems True d a f0
      have "deliver env rest (?p, ResetFragmentedPayload s2, ?w) = (packet', substream', w')"
        by (simp add: Let_def)
      from Cons.IH[OF this] obtain r where
        r: "server w' = server ?w" "store w' = store ?w" "trace w' = trace ?w @ r"
           "list_all (isSpawnOf ''reliable-data'') r"
        by blast
      have "list_all (isSpawnOf ''reliable-data'')
              (map (\<lambda>h. Spawn ''reliable-data'' h ?p) (handlersOf (server w) ''reliable-data'') @ r)"
        using r(4) by (auto simp: list_all_iff)
      with r show ?thesis by auto
    qed
  qed
qed

lemma putSubstream_frame [simp]:
  "trace (putSubstream ref sid substream w) = trace w"
  "server (putSubstream ref sid substream w) = server w"
  by (simp_all add: putSubstream_def)

lemma handleReliable_trace:
  assumes "packetType packet = DataPacket" "FlagNeedsAck \<in> flags packet"
  shows "\<exists>ack rest. ackSent packet ack
           \<and> trace (finalWorld (handleReliable env packet w)) =
               trace w @ SendRaw (address (store w (sender packet))) (Bytes env ack) # rest
           \<and> list_all (isSpawnOf ''reliable-data'') rest"
proof -
  from assms(1) have "packetType packet = DisconnectPacket \<longrightarrow> signatureIgnoresSignature env"
    by simp
  from acknowledgePacket_sends[OF this, of w] assms(1) obtain ack where
    ack: "ackSent packet ack" and
    sent: "acknowledgePacket env packet w =
             Inr (w\<lparr>trace := trace w @ [SendRaw (address (store w (sender packet))) (Bytes env ack)]\<rparr>)"
    by auto
  let ?w1 = "w\<lparr>trace := trace w @ [SendRaw (address (store w (sender packet))) (Bytes env ack)]\<rparr>"
  show ?thesis
  proof (cases "reliableSubstream (store w (sender packet)) (substreamID packet)")
    case (Inl p)
    then have "handleReliable env packet w = Inl (p, ?w1)"
      using assms(2) by (simp add: handleReliable_def sent bindE_def withSubstream_def)
    with ack show ?thesis by (intro exI[of _ ack] exI[of _ "[]"]) simp
  next
    case (Inr substream)
    obtain ready s1 where u: "Update substream packet = (ready, s1)"
      by (cases "Update substream packet")
    obtain p' s2 w2 where d: "deliver env ready (packet, s1, ?w1) = (p', s2, w2)"
      by (cases "deliver env ready (packet, s1, ?w1)")
    from deliver_frame[OF d] obtain rest where
      rest: "trace w2 = trace ?w1 @ rest" "list_all (isSpawnOf ''reliable-data'') rest"
      by blast
    have "handleReliable env packet w =
            Inr (putSubstream (sender packet) (substreamID packet) s2 w2)"
      using assms(2) Inr u d
      by (simp add: handleReliable_def sent bindE_def withSubstream_def)
    with ack rest show ?thesis by (intro exI[of _ ack] exI[of _ rest]) simp
  qed
qed

text \<open>
  C7.  A reliable DATA packet carrying NEEDS\_ACK: the first thing \<open>handleReliable\<close>
  does to the outside is to send the ACK of that packet; everything after it, whether the
  handler returns or panics on a missing substream, is the start of \<open>reliable-data\<close>
  handlers.  So the ACK is on the wire before delivery is attempted and before any
  \<open>reliable-data\<close> emission.
\<close>

theorem handleReliable_acknowledges_before_delivery:
  assumes "packetType packet = DataPacket" "FlagReliable \<in> flags packet"
    and "FlagNeedsAck \<in> flags packet"
  shows "\<exists>ack rest. ackSent packet ack
           \<and> trace (finalWorld (handleData env packet w)) =
               trace w @ SendRaw (address (store w (sender packet))) (Bytes env ack) # rest
           \<and> list_all (isSpawnOf ''reliable-data'') rest"
  using handleReliable_trace[OF assms(1,3)] assms(2) by (simp add: handleData_def)

theorem handleReliable_acknowledges_before_delivery_witness:
  "packetType (samplePacket DataPacket {FlagReliable, FlagNeedsAck} 1 [1, 2, 3]) = DataPacket
   \<and> FlagReliable \<in> flags (samplePacket DataPacket {FlagReliable, FlagNeedsAck} 1 [1, 2, 3])
   \<and> FlagNeedsAck \<in> flags (samplePacket DataPacket {FlagReliable, FlagNeedsAck} 1 [1, 2, 3])
   \<and> (\<exists>ack rest. ackSent (samplePacket DataPacket {FlagReliable, FlagNeedsAck} 1 [1, 2, 3]) ack
         \<and> trace (finalWorld (handleData sampleEnv
                     (samplePacket DataPacket {FlagReliable, FlagNeedsAck} 1 [1, 2, 3]) sampleWorld)) =
             trace sampleWorld @ SendRaw ''10.0.0.1:5000'' (Bytes sampleEnv ack) # rest
         \<and> list_all (isSpawnOf ''reliable-data'') rest)"
  using handleReliable_acknowledges_before_delivery
          [of "samplePacket DataPacket {FlagReliable, FlagNeedsAck} 1 [1, 2, 3]" sampleEnv sampleWorld]
  by (simp add: samplePacket_def sampleWorld_def sampleClient_def)

lemma handleDisconnect_trace:
  assumes "packetType packet = DisconnectPacket" "FlagNeedsAck \<in> flags packet"
    and "signatureIgnoresSignature env"
  shows "\<exists>ack w'. handleDisconnect env packet w = Inr w' \<and> ackSent packet ack
           \<and> trace w' = trace w
               @ replicate 3 (SendRaw (address (store w (sender packet))) (Bytes env ack))
               @ [StopTimers (sender packet)]
               @ map (\<lambda>h. Spawn ''disconnect'' h packet) (handlersOf (server w) ''disconnect'')
           \<and> clients (server w') = (clients (server w))(address (store w (sender packet)) := None)"
proof -
  from assms(3) have "packetType packet = DisconnectPacket \<longrightarrow> signatureIgnoresSignature env"
    by simp
  from acknowledgePacket_sends[OF this, of w] assms(1) obtain ack where
    ack: "ackSent packet ack" and
    sent: "acknowledgePacket env packet w =
             Inr (w\<lparr>trace := trace w @ replicate 3
                    (SendRaw (address (store w (sender packet))) (Bytes env ack))\<rparr>)"
    by auto
  show ?thesis
    using ack assms(2)
    by (intro exI[of _ ack])
       (simp add: handleDisconnect_def sent bindE_def Let_def cleanup_def deleteClient_def
                  handlersOf_def emit_def split: option.splits)
qed

text \<open>
  C8.  A DISCONNECT packet carrying NEEDS\_ACK, given to \<open>handleDisconnect\<close>: the ACK
  is written to the socket three times, the same bytes each time; the peer's timers are
  stopped; the peer's address is no longer in the registry; every handler registered for
  \<open>disconnect\<close> is started with the packet.  The three signatures agree because the
  signature of a packet does not depend on the signature it already carries.
\<close>

theorem handleDisconnect_acknowledges_three_times:
  assumes "packetType packet = DisconnectPacket" "FlagNeedsAck \<in> flags packet"
    and "signatureIgnoresSignature env"
  shows "\<exists>ack w'. handleDisconnect env packet w = Inr w' \<and> ackSent packet ack
           \<and> trace w' = trace w
               @ replicate 3 (SendRaw (address (store w (sender packet))) (Bytes env ack))
               @ [StopTimers (sender packet)]
               @ map (\<lambda>h. Spawn ''disconnect'' h packet) (handlersOf (server w) ''disconnect'')
           \<and> clients (server w') = (clients (server w))(address (store w (sender packet)) := None)"
  using handleDisconnect_trace[OF assms] .

lemma sampleEnv_signature: "signatureIgnoresSignature sampleEnv"
  by (simp add: signatureIgnoresSignature_def sampleEnv_def)

theorem handleDisconnect_acknowledges_three_times_witness:
  "packetType (samplePacket DisconnectPacket {FlagNeedsAck} 9 []) = DisconnectPacket
   \<and> FlagNeedsAck \<in> flags (samplePacket DisconnectPacket {FlagNeedsAck} 9 [])
   \<and> signatureIgnoresSignature sampleEnv
   \<and> (\<exists>ack w'. handleDisconnect sampleEnv (samplePacket DisconnectPacket {FlagNeedsAck} 9 []) sampleWorld
                  = Inr w'
         \<and> ackSent (samplePacket DisconnectPacket {FlagNeedsAck} 9 []) ack
         \<and> trace w' = replicate 3 (SendRaw ''10.0.0.1:5000'' (Bytes sampleEnv ack))
               @ [StopTimers 0, Spawn ''disconnect'' 8 (samplePacket DisconnectPacket {FlagNeedsAck} 9 [])]
         \<and> clients (server w') ''10.0.0.1:5000'' = None)"
proof -
  have h: "packetType (samplePacket DisconnectPacket {FlagNeedsAck} 9 []) = DisconnectPacket"
          "FlagNeedsAck \<in> flags (samplePacket DisconnectPacket {FlagNeedsAck} 9 [])"
    by (simp_all add: samplePacket_def)
  from handleDisconnect_acknowledges_three_times[OF h sampleEnv_signature, of sampleWorld]
  obtain ack w' where
    r: "handleDisconnect sampleEnv (samplePacket DisconnectPacket {FlagNeedsAck} 9 []) sampleWorld = Inr w'"
       "ackSent (samplePacket DisconnectPacket {FlagNeedsAck} 9 []) ack"
       "trace w' = trace sampleWorld
          @ replicate 3 (SendRaw (address (store sampleWorld
                (sender (samplePacket DisconnectPacket {FlagNeedsAck} 9 [])))) (Bytes sampleEnv ack))
          @ [StopTimers (sender (samplePacket DisconnectPacket {FlagNeedsAck} 9 []))]
          @ map (\<lambda>h. Spawn ''disconnect'' h (samplePacket DisconnectPacket {FlagNeedsAck} 9 []))
                (handlersOf (server sampleWorld) ''disconnect'')"
       "clients (server w') = (clients (server sampleWorld))(address (store sampleWorld
                (sender (samplePacket DisconnectPacket {FlagNeedsAck} 9 []))) := None)"
    by blast
  have s: "address (store sampleWorld (sender (samplePacket DisconnectPacket {FlagNeedsAck} 9 [])))
             = ''10.0.0.1:5000''"
     "sender (samplePacket DisconnectPacket {FlagNeedsAck} 9 []) = 0"
     "handlersOf (server sampleWorld) ''disconnect'' = [8]" "trace sampleWorld = []"
    by (simp_all add: sampleWorld_def sampleClient_def samplePacket_def sampleServer_def
                      handlersOf_def NewPRUDPPacket_def)
  from r s h sampleEnv_signature show ?thesis
    by (intro conjI exI[of _ ack] exI[of _ w']) simp_all
qed

lemma filter_isSendRaw_spawns:
  "list_all (isSpawnOf name) rest \<Longrightarrow> filter isSendRaw rest = []"
proof (induction rest)
  case Nil
  then show ?case by simp
next
  case (Cons e rest)
  then show ?case by (cases e) simp_all
qed

lemma filter_isSendRaw_map_Spawn:
  "filter isSendRaw (map (\<lambda>h. Spawn name h p) hs) = []"
  by (induction hs) simp_all

lemma resetHeartbeat_simps [simp]:
  "store (resetHeartbeat ref w) = store w" "server (resetHeartbeat ref w) = server w"
  "trace (resetHeartbeat ref w) = trace w @ [ResetHeartbeat ref]"
  by (simp_all add: resetHeartbeat_def)

lemma processPacket_acks:
  assumes na: "FlagNeedsAck \<in> flags packet"
    and nack: "FlagAck \<notin> flags packet" "FlagMultiAck \<notin> flags packet"
    and ty: "packetType packet = PingPacket \<or> packetType packet = DisconnectPacket
             \<or> (packetType packet = DataPacket \<and> FlagReliable \<in> flags packet)"
    and sg: "packetType packet = DisconnectPacket \<longrightarrow> signatureIgnoresSignature env"
  shows "\<exists>ack out. processPacket env now packet w = Some out \<and> ackSent packet ack
           \<and> take (length (trace w)) (trace (finalWorld out)) = trace w
           \<and> filter isSendRaw (newEffects w (finalWorld out)) =
               replicate (if packetType packet = DisconnectPacket then 3 else 1)
                 (SendRaw (address (store w (sender packet))) (Bytes env ack))"
proof -
  let ?w0 = "resetHeartbeat (sender packet) w"
  let ?a = "address (store w (sender packet))"
  from ty consider (ping) "packetType packet = PingPacket"
    | (disc) "packetType packet = DisconnectPacket"
    | (data) "packetType packet = DataPacket" "FlagReliable \<in> flags packet"
    by blast
  then show ?thesis
  proof cases
    case ping
    then have "packetType packet = DisconnectPacket \<longrightarrow> signatureIgnoresSignature env" by simp
    from acknowledgePacket_sends[OF this, of ?w0] ping obtain ack where
      ack: "ackSent packet ack" and
      sent: "acknowledgePacket env packet ?w0 =
               Inr (?w0\<lparr>trace := trace ?w0 @ [SendRaw ?a (Bytes env ack)]\<rparr>)"
      by auto
    have "processPacket env now packet w =
            Some (Inr (?w0\<lparr>trace := trace ?w0 @ [SendRaw ?a (Bytes env ack)]\<rparr>))"
      using ping na nack by (simp add: processPacket_def Let_def handlePing_def sent)
    with ack ping show ?thesis
      by (intro exI[of _ ack]) (simp add: newEffects_def)
  next
    case disc
    with sg have "signatureIgnoresSignature env" by simp
    from handleDisconnect_trace[OF disc na this, of ?w0] obtain ack w' where
      r: "handleDisconnect env packet ?w0 = Inr w'" "ackSent packet ack"
         "trace w' = trace ?w0 @ replicate 3 (SendRaw ?a (Bytes env ack))
               @ [StopTimers (sender packet)]
               @ map (\<lambda>h. Spawn ''disconnect'' h packet) (handlersOf (server ?w0) ''disconnect'')"
      by auto
    have "processPacket env now packet w = Some (Inr w')"
      using disc nack r(1) by (simp add: processPacket_def Let_def)
    with r(2,3) disc show ?thesis
      by (intro exI[of _ ack])
         (simp add: newEffects_def filter_isSendRaw_map_Spawn)
  next
    case data
    from handleReliable_trace[OF data(1) na, of env ?w0] obtain ack rest where
      r: "ackSent packet ack"
         "trace (finalWorld (handleReliable env packet ?w0)) =
            trace ?w0 @ SendRaw ?a (Bytes env ack) # rest"
         "list_all (isSpawnOf ''reliable-data'') rest"
      by auto
    have "processPacket env now packet w = Some (handleReliable env packet ?w0)"
      using data nack by (simp add: processPacket_def Let_def handleData_def)
    with r data(1) show ?thesis
      by (intro exI[of _ ack])
         (simp add: newEffects_def filter_isSendRaw_spawns)
  qed
qed

text \<open>
  C5, as the code has it.  A PING, a DISCONNECT or a reliable DATA packet that carries
  NEEDS\_ACK and is not itself an ACK or multi-ACK is acknowledged by \<open>processPacket\<close>:
  the only datagrams written are copies of one ACK whose type, sequence id, fragment id
  and substream id are the received packet's and whose source and destination are the
  received packet's destination and source; one copy, or three for DISCONNECT.
\<close>

theorem processPacket_acknowledges:
  assumes "FlagNeedsAck \<in> flags packet"
    and "FlagAck \<notin> flags packet" "FlagMultiAck \<notin> flags packet"
    and "packetType packet = PingPacket \<or> packetType packet = DisconnectPacket
             \<or> (packetType packet = DataPacket \<and> FlagReliable \<in> flags packet)"
    and "packetType packet = DisconnectPacket \<longrightarrow> signatureIgnoresSignature env"
  shows "\<exists>ack out. processPacket env now packet w = Some out \<and> ackSent packet ack
           \<and> take (length (trace w)) (trace (finalWorld out)) = trace w
           \<and> filter isSendRaw (newEffects w (finalWorld out)) =
               replicate (if packetType packet = DisconnectPacket then 3 else 1)
                 (SendRaw (address (store w (sender packet))) (Bytes env ack))"
  using processPacket_acks[OF assms] .

theorem processPacket_acknowledges_witness:
  "FlagNeedsAck \<in> flags (samplePacket PingPacket {FlagNeedsAck} 3 [])
   \<and> FlagAck \<notin> flags (samplePacket PingPacket {FlagNeedsAck} 3 [])
   \<and> FlagMultiAck \<notin> flags (samplePacket PingPacket {FlagNeedsAck} 3 [])
   \<and> packetType (samplePacket PingPacket {FlagNeedsAck} 3 []) = PingPacket
   \<and> (\<exists>ack out. processPacket sampleEnv 0 (samplePacket PingPacket {FlagNeedsAck} 3 []) sampleWorld
                    = Some out
         \<and> ackSent (samplePacket PingPacket {FlagNeedsAck} 3 []) ack
         \<and> filter isSendRaw (newEffects sampleWorld (finalWorld out)) =
             [SendRaw ''10.0.0.1:5000'' (Bytes sampleEnv ack)])"
proof -
  have h: "FlagNeedsAck \<in> flags (samplePacket PingPacket {FlagNeedsAck} 3 [])"
          "FlagAck \<notin> flags (samplePacket PingPacket {FlagNeedsAck} 3 [])"
          "FlagMultiAck \<notin> flags (samplePacket PingPacket {FlagNeedsAck} 3 [])"
          "packetType (samplePacket PingPacket {FlagNeedsAck} 3 []) = PingPacket"
    by (simp_all add: samplePacket_def)
  have a: "address (store sampleWorld (sender (samplePacket PingPacket {FlagNeedsAck} 3 [])))
             = ''10.0.0.1:5000''"
    by (simp add: sampleWorld_def sampleClient_def)
  from processPacket_acknowledges
         [of "samplePacket PingPacket {FlagNeedsAck} 3 []" sampleEnv 0 sampleWorld] h a
  show ?thesis by auto
qed

text \<open>
  The claim as written fails on a DISCONNECT packet with NEEDS\_ACK, which is acknowledged
  three times, and on a DATA packet with NEEDS\_ACK and without RELIABLE, which is not
  acknowledged at all.
\<close>

theorem processPacket_acknowledges_counterexample:
  "map_option (\<lambda>out. length (filter isSendRaw (trace (finalWorld out))))
     (processPacket sampleEnv 0 (samplePacket DisconnectPacket {FlagNeedsAck} 9 []) sampleWorld) = Some 3
   \<and> map_option (\<lambda>out. length (filter isSendRaw (trace (finalWorld out))))
       (processPacket sampleEnv 0 (samplePacket DataPacket {FlagNeedsAck} 9 [1]) sampleWorld) = Some 0"
proof -
  have h: "FlagNeedsAck \<in> flags (samplePacket DisconnectPacket {FlagNeedsAck} 9 [])"
          "FlagAck \<notin> flags (samplePacket DisconnectPacket {FlagNeedsAck} 9 [])"
          "FlagMultiAck \<notin> flags (samplePacket DisconnectPacket {FlagNeedsAck} 9 [])"
          "packetType (samplePacket DisconnectPacket {FlagNeedsAck} 9 []) = DisconnectPacket"
    by (simp_all add: samplePacket_def)
  have t: "trace sampleWorld = []" by (simp add: sampleWorld_def)
  from processPacket_acks[OF h(1,2,3), of sampleEnv 0 sampleWorld] h(4) sampleEnv_signature
  obtain ack out where
    "processPacket sampleEnv 0 (samplePacket DisconnectPacket {FlagNeedsAck} 9 []) sampleWorld = Some out"
    "filter isSendRaw (newEffects sampleWorld (finalWorld out)) =
       replicate 3 (SendRaw (address (store sampleWorld
          (sender (samplePacket DisconnectPacket {FlagNeedsAck} 9 [])))) (Bytes sampleEnv ack))"
    by auto
  then have d: "map_option (\<lambda>out. length (filter isSendRaw (trace (finalWorld out))))
     (processPacket sampleEnv 0 (samplePacket DisconnectPacket {FlagNeedsAck} 9 []) sampleWorld) = Some 3"
    by (simp add: newEffects_def t)
  have u: "processPacket sampleEnv 0 (samplePacket DataPacket {FlagNeedsAck} 9 [1]) sampleWorld
             = Some (Inr (resetHeartbeat 0 sampleWorld))"
    by (simp add: processPacket_def samplePacket_def Let_def handleData_def handleUnreliable_def
                  NewPRUDPPacket_def)
  from d show ?thesis by (simp add: u t)
qed


section \<open>Unreliable DATA\<close>

text \<open>
  C10, as the code has it.  A DATA packet without RELIABLE that is neither an ACK nor a
  multi-ACK: \<open>processPacket\<close> re-arms the heartbeat of the sender and does nothing
  else; the server, every peer and every substream are as before, nothing is written and
  no handler is started.
\<close>

theorem processPacket_unreliable_data:
  assumes "packetType packet = DataPacket" "FlagReliable \<notin> flags packet"
    and "FlagAck \<notin> flags packet" "FlagMultiAck \<notin> flags packet"
  shows "processPacket env now packet w =
           Some (Inr (w\<lparr>trace := trace w @ [ResetHeartbeat (sender packet)]\<rparr>))"
  using assms
  by (simp add: processPacket_def Let_def handleData_def handleUnreliable_def resetHeartbeat_def)

theorem processPacket_unreliable_data_witness:
  "packetType (samplePacket DataPacket {FlagNeedsAck} 9 [1]) = DataPacket
   \<and> FlagReliable \<notin> flags (samplePacket DataPacket {FlagNeedsAck} 9 [1])
   \<and> FlagAck \<notin> flags (samplePacket DataPacket {FlagNeedsAck} 9 [1])
   \<and> FlagMultiAck \<notin> flags (samplePacket DataPacket {FlagNeedsAck} 9 [1])
   \<and> processPacket sampleEnv 0 (samplePacket DataPacket {FlagNeedsAck} 9 [1]) sampleWorld =
       Some (Inr (sampleWorld\<lparr>trace := [ResetHeartbeat 0]\<rparr>))"
  using processPacket_unreliable_data
          [of "samplePacket DataPacket {FlagNeedsAck} 9 [1]" sampleEnv 0 sampleWorld]
  by (simp add: samplePacket_def sampleWorld_def NewPRUDPPacket_def)

text \<open>
  The claim as written fails on a DATA packet without RELIABLE that carries ACK: the
  dispatcher takes it as an acknowledgment before it looks at the type, and the
  acknowledged sequence id leaves the scheduler of the substream.
\<close>

theorem processPacket_unreliable_data_counterexample:
  "packetType (samplePacket DataPacket {FlagAck} 5 []) = DataPacket
   \<and> FlagReliable \<notin> flags (samplePacket DataPacket {FlagAck} 5 [])
   \<and> map (\<lambda>substream. map fst (ResendScheduler substream))
         (reliableSubstreams (store busyWorld 0)) = [[5]]
   \<and> map_option (\<lambda>out. map (\<lambda>substream. map fst (ResendScheduler substream))
                          (reliableSubstreams (store (finalWorld out) 0)))
       (processPacket sampleEnv 0 (samplePacket DataPacket {FlagAck} 5 []) busyWorld) = Some [[]]"
  by (simp add: processPacket_def Let_def handleAcknowledgment_def withSubstream_def
                reliableSubstream_def putSubstream_def AcknowledgePacket_def resetHeartbeat_def
                busyWorld_def sampleWorld_def sampleClient_def samplePacket_def
                NewPRUDPPacket_def NewReliablePacketSubstreamManager_def AList.delete_eq)


section \<open>Fragmentation\<close>

lemma sendFrame_refl [simp]: "sendFrame p w p w"
  by (simp add: sendFrame_def)



lemma putSubstream_sendFrame:
  "sendFrame p w p' (putSubstream ref sid substream w) = sendFrame p w p' w"
  by (simp add: sendFrame_def putSubstream_def)













section \<open>Kerberos validation and CONNECT\<close>

lemma le_word_le_bytes_32: "le_word (le_bytes 4 v) = (v :: 32 word)"
proof (rule bit_word_eqI)
  fix n
  assume "n < LENGTH(32)"
  then consider "n < 8" | "8 \<le> n" "n < 16" | "16 \<le> n" "n < 24" | "24 \<le> n" "n < 32"
    by fastforce
  then show "bit (le_word (le_bytes 4 v) :: 32 word) n = bit v n"
    by cases (auto simp: le_bytes_def upt_rec bit_simps)
qed

lemma length_le_bytes [simp]: "length (le_bytes n v) = n"
  by (simp add: le_bytes_def)

lemma ReadUInt32LE_ok:
  assumes "boff stream + 4 \<le> length (buf stream)"
  shows "ReadUInt32LE stream =
           Inr ((le_word (take 4 (drop (boff stream) (buf stream))), None),
                stream\<lparr>boff := boff stream + 4\<rparr>)"
  using assms
  by (simp add: ReadUInt32LE_def guarded_def Remaining_def ReadU32LENext_def ReadBytesNext_def)

lemma ReadUInt32LE_short:
  assumes "boff stream \<le> length (buf stream)" "length (buf stream) < boff stream + 4"
  shows "ReadUInt32LE stream = Inr ((0, Some ''Not enough data to read uint32''), stream)"
proof -
  from assms(2) have "length (buf stream) - boff stream < 4" by arith
  with assms(1) show ?thesis
    by (simp add: ReadUInt32LE_def guarded_def Remaining_def)
qed

lemma ReadBuffer_ok:
  assumes "drop (boff stream) (buf stream) = nexBuffer d @ rest" "length d < 2 ^ 32"
  shows "ReadBuffer stream = Inr ((d, None), stream\<lparr>boff := boff stream + 4 + length d\<rparr>)"
proof -
  have len: "length (buf stream) = boff stream + (4 + length d + length rest)"
  proof -
    have "length (drop (boff stream) (buf stream)) = 4 + length d + length rest"
      by (simp add: assms(1) nexBuffer_def)
    moreover have "boff stream \<le> length (buf stream)"
    proof (rule ccontr)
      assume "\<not> boff stream \<le> length (buf stream)"
      then have "drop (boff stream) (buf stream) = []" by simp
      with assms(1) show False by (simp add: nexBuffer_def le_bytes_def upt_rec)
    qed
    ultimately show ?thesis by simp
  qed
  have t4: "take 4 (drop (boff stream) (buf stream)) = le_bytes 4 (of_nat (length d) :: 32 word)"
    by (simp add: assms(1) nexBuffer_def)
  have un: "unat (of_nat (length d) :: 32 word) = length d"
    using assms(2) by (simp add: unat_of_nat)
  have d4: "drop (boff stream + 4) (buf stream) = d @ rest"
  proof -
    have "drop (boff stream + 4) (buf stream) = drop 4 (drop (boff stream) (buf stream))"
      by (simp add: add.commute)
    then show ?thesis by (simp add: assms(1) nexBuffer_def)
  qed
  have r1: "ReadUInt32LE stream =
              Inr ((of_nat (length d), None), stream\<lparr>boff := boff stream + 4\<rparr>)"
    using ReadUInt32LE_ok[of stream] len by (simp add: t4 le_word_le_bytes_32)
  show ?thesis
    using len
    by (simp add: ReadBuffer_def r1 bindE_def Remaining_def un ReadBytesNext_def d4)
qed

lemma WriteUInt32LE_twice:
  "bindE (WriteUInt32LE a NewStreamOut) (WriteUInt32LE b) =
     Inr \<lparr>obuf = le_bytes 4 a @ le_bytes 4 b, oboff = 8\<rparr>"
  by (simp add: WriteUInt32LE_def WriteBytesNext_def Grow_def NewStreamOut_def bindE_def)

lemma length_nexBuffer [simp]: "length (nexBuffer d) = 4 + length d"
  by (simp add: nexBuffer_def)

lemma readKerberosTicket_buffers:
  assumes "payload' = nexBuffer ticketData @ nexBuffer requestData @ extra"
    and "length ticketData < 2 ^ 32" "length requestData < 2 ^ 32"
  shows "ReadBuffer (NewStreamIn payload') =
           Inr ((ticketData, None), \<lparr>buf = payload', boff = 4 + length ticketData\<rparr>)"
    and "ReadBuffer \<lparr>buf = payload', boff = 4 + length ticketData\<rparr> =
           Inr ((requestData, None),
                \<lparr>buf = payload', boff = 4 + length ticketData + 4 + length requestData\<rparr>)"
proof -
  have "drop (boff (NewStreamIn payload')) (buf (NewStreamIn payload')) =
          nexBuffer ticketData @ (nexBuffer requestData @ extra)"
    by (simp add: NewStreamIn_def assms(1))
  from ReadBuffer_ok[OF this assms(2)]
  show "ReadBuffer (NewStreamIn payload') =
           Inr ((ticketData, None), \<lparr>buf = payload', boff = 4 + length ticketData\<rparr>)"
    by (simp add: NewStreamIn_def)
  let ?s = "\<lparr>buf = payload', boff = 4 + length ticketData\<rparr>"
  have "drop (boff ?s) (buf ?s) = nexBuffer requestData @ extra"
    using length_nexBuffer[of ticketData] by (simp add: assms(1) del: length_nexBuffer)
  from ReadBuffer_ok[OF this assms(3)]
  show "ReadBuffer ?s =
           Inr ((requestData, None),
                \<lparr>buf = payload', boff = 4 + length ticketData + 4 + length requestData\<rparr>)"
    by simp
qed

lemma readKerberosTicket_expired:
  assumes "payload' = nexBuffer ticketData @ nexBuffer requestData @ extra"
    and "length ticketData < 2 ^ 32" "length requestData < 2 ^ 32"
    and "TicketDecrypt env ticketData (DeriveKerberosKey env 2 (kerberosPassword s)) = Inr ticket"
    and "Standard env (Issued ticket) + 120000000000 < now"
  shows "readKerberosTicket env now s payload' = Inr ([], 0, 0, Some ''Kerberos ticket expired'')"
  using assms(4,5)
  by (simp add: readKerberosTicket_def readKerberosTicket_buffers[OF assms(1,2,3)]
                bindE_def Let_def Minute_def)

lemma read_three_words:
  fixes a b c :: "32 word"
  assumes "data = le_bytes 4 a @ le_bytes 4 b @ le_bytes 4 c @ extra"
  shows "ReadUInt32LE (NewStreamIn data) = Inr ((a, None), \<lparr>buf = data, boff = 4\<rparr>)"
    and "ReadUInt32LE \<lparr>buf = data, boff = 4\<rparr> = Inr ((b, None), \<lparr>buf = data, boff = 8\<rparr>)"
    and "ReadUInt32LE \<lparr>buf = data, boff = 8\<rparr> = Inr ((c, None), \<lparr>buf = data, boff = 12\<rparr>)"
proof -
  have l: "length data = 12 + length extra" by (simp add: assms)
  have t0: "take 4 data = le_bytes 4 a" by (simp add: assms)
  have t1: "take 4 (drop 4 data) = le_bytes 4 b" by (simp add: assms)
  have "drop 8 data = drop 4 (drop 4 data)" by simp
  then have t2: "take 4 (drop 8 data) = le_bytes 4 c" by (simp add: assms)
  show "ReadUInt32LE (NewStreamIn data) = Inr ((a, None), \<lparr>buf = data, boff = 4\<rparr>)"
    using ReadUInt32LE_ok[of "NewStreamIn data"] l
    by (simp add: NewStreamIn_def t0 le_word_le_bytes_32)
  show "ReadUInt32LE \<lparr>buf = data, boff = 4\<rparr> = Inr ((b, None), \<lparr>buf = data, boff = 8\<rparr>)"
    using ReadUInt32LE_ok[of "\<lparr>buf = data, boff = 4\<rparr>"] l
    by (simp add: t1 le_word_le_bytes_32)
  show "ReadUInt32LE \<lparr>buf = data, boff = 8\<rparr> = Inr ((c, None), \<lparr>buf = data, boff = 12\<rparr>)"
    using ReadUInt32LE_ok[of "\<lparr>buf = data, boff = 8\<rparr>"] l
    by (simp add: t2 le_word_le_bytes_32)
qed

lemma readKerberosTicket_valid:
  assumes "payload' = nexBuffer ticketData @ nexBuffer requestData @ extra"
    and "length ticketData < 2 ^ 32" "length requestData < 2 ^ 32"
    and "TicketDecrypt env ticketData (DeriveKerberosKey env 2 (kerberosPassword s)) = Inr ticket"
    and "now \<le> Standard env (Issued ticket) + 120000000000"
    and "KerberosDecrypt env (SessionKey ticket) requestData =
           Inr (le_bytes 4 userPID @ le_bytes 4 (cid :: 32 word) @ le_bytes 4 checkValue @ extra')"
  shows "readKerberosTicket env now s payload' = Inr (SessionKey ticket, userPID, checkValue, None)"
proof -
  define data where "data = le_bytes 4 userPID @ le_bytes 4 cid @ le_bytes 4 checkValue @ extra'"
  note reads = read_three_words[OF data_def]
  have k: "KerberosDecrypt env (SessionKey ticket) requestData = Inr data"
    using assms(6) by (simp add: data_def)
  show ?thesis
    using assms(4,5)
    by (simp add: readKerberosTicket_def readKerberosTicket_buffers[OF assms(1,2,3)]
                  k reads bindE_def Let_def Minute_def)
qed

lemma handleConnect_secure:
  assumes "IsSecureServer (server w)"
    and "readKerberosTicket env now (server w) (payload packet) = Inr (sk, p, cv, err)"
  shows "\<exists>ack w'. handleConnect env now packet w = Inr w'
           \<and> packetType ack = ConnectPacket \<and> FlagAck \<in> flags ack
           \<and> payload ack = le_bytes 4 (4 :: 32 word) @ le_bytes 4 (cv + 1)
           \<and> trace w' = trace w @ (case err of None \<Rightarrow> [] | Some e \<Rightarrow> [Println e])
               @ map (\<lambda>h. Spawn ''connect'' h ack) (handlersOf (server w) ''connect'')
               @ [SendRaw (address (store w (sender packet))) (Bytes env ack)]
           \<and> pid (store w' (sender packet)) = p
           \<and> sessionKey (store w' (sender packet)) = sk"
proof -
  define cs where "cs = calculateConnectionSignature env packet (address (store w (sender packet)))"
  define ack0 where "ack0 =
    (NewPRUDPPacket (if version packet = 0 then 0 else 1) (sender packet))
      \<lparr>packetType := ConnectPacket, flags := {FlagHasSize, FlagAck},
       sourceStreamType := destinationStreamType packet, sourcePort := destinationPort packet,
       destinationStreamType := sourceStreamType packet, destinationPort := sourcePort packet,
       connectionSignature := replicate (length cs) 0, sessionID := 0, sequenceID := 1\<rparr>"
  define ack1 where "ack1 =
    (if version packet = 0 then ack0
     else ack0\<lparr>maximumSubstreamID := maximumSubstreamID packet, minorVersion := minorVersion packet,
               supportedFunctions := supportedFunctions packet\<rparr>)"
  define ack2 where "ack2 = ack1\<lparr>payload := le_bytes 4 (4 :: 32 word) @ le_bytes 4 (cv + 1)\<rparr>"
  define ack where
    "ack = ack2\<lparr>signature := calculateSignature env ack2 [] (connectionSignature packet)\<rparr>"
  have fields: "packetType ack = ConnectPacket" "FlagAck \<in> flags ack"
      "payload ack = le_bytes 4 (4 :: 32 word) @ le_bytes 4 (cv + 1)"
    by (simp_all add: ack_def ack2_def ack1_def ack0_def)
  have run: "\<exists>w'. handleConnect env now packet w = Inr w'
           \<and> trace w' = trace w @ (case err of None \<Rightarrow> [] | Some e \<Rightarrow> [Println e])
               @ map (\<lambda>h. Spawn ''connect'' h ack) (handlersOf (server w) ''connect'')
               @ [SendRaw (address (store w (sender packet))) (Bytes env ack)]
           \<and> pid (store w' (sender packet)) = p
           \<and> sessionKey (store w' (sender packet)) = sk"
  proof (cases "version packet = 0")
    case True
    then show ?thesis
      using assms
      by (cases err)
         (simp_all add: handleConnect_def Let_def updClient_def NewPRUDPPacket_def bindE_def
            WriteUInt32LE_twice[unfolded bindE_def] createReliableSubstreams_def SetPID_def
            setSessionKey_def ack_def ack2_def ack1_def ack0_def cs_def)
  next
    case False
    then show ?thesis
      using assms
      by (cases err)
         (simp_all add: handleConnect_def Let_def updClient_def NewPRUDPPacket_def bindE_def
            WriteUInt32LE_twice[unfolded bindE_def] createReliableSubstreams_def SetPID_def
            setSessionKey_def ack_def ack2_def ack1_def ack0_def cs_def)
  qed
  with fields show ?thesis by blast
qed

lemma sampleTicket_decrypts:
  "TicketDecrypt sampleEnv sampleTicketData (DeriveKerberosKey sampleEnv 2 k) =
     Inr \<lparr>Issued = 1000, SourcePID = 0, SessionKey = [9, 9]\<rparr>"
  by (simp add: sampleEnv_def sampleTicketData_def)

lemma sampleRequest_decrypts:
  "KerberosDecrypt sampleEnv k sampleRequestData =
     Inr (le_bytes 4 (1234 :: 32 word) @ le_bytes 4 (0 :: 32 word)
          @ le_bytes 4 (0xDEADBEEF :: 32 word) @ [])"
  by (simp add: sampleEnv_def sampleRequestData_def)

lemma sampleConnect_layout:
  "payload sampleConnect = nexBuffer sampleTicketData @ nexBuffer sampleRequestData @ []"
  "length sampleTicketData < 2 ^ 32" "length sampleRequestData < 2 ^ 32"
  by (simp_all add: sampleConnect_def samplePacket_def sampleTicketData_def sampleRequestData_def)

lemma sample_Standard: "Standard sampleEnv 1000 = 1000000000000"
  by (simp add: sampleEnv_def)

text \<open>
  C6.  A ticket that decrypts, with a request block that validates: \<open>readKerberosTicket\<close>
  returns the session key, user PID and check value without error at every current time up
  to and including 120 seconds (in nanoseconds) after the time of issue, and returns the
  error \<open>Kerberos ticket expired\<close> at every time strictly after that.
\<close>

theorem readKerberosTicket_validity_window:
  assumes "payload' = nexBuffer ticketData @ nexBuffer requestData @ extra"
    and "length ticketData < 2 ^ 32" "length requestData < 2 ^ 32"
    and "TicketDecrypt env ticketData (DeriveKerberosKey env 2 (kerberosPassword s)) = Inr ticket"
    and "KerberosDecrypt env (SessionKey ticket) requestData =
           Inr (le_bytes 4 userPID @ le_bytes 4 (cid :: 32 word) @ le_bytes 4 checkValue @ extra')"
  shows "(now \<le> Standard env (Issued ticket) + 120 * 1000000000 \<longrightarrow>
            readKerberosTicket env now s payload' =
              Inr (SessionKey ticket, userPID, checkValue, None))
       \<and> (Standard env (Issued ticket) + 120 * 1000000000 < now \<longrightarrow>
            readKerberosTicket env now s payload' =
              Inr ([], 0, 0, Some ''Kerberos ticket expired''))"
  using readKerberosTicket_valid[OF assms(1,2,3,4) _ assms(5), of now]
        readKerberosTicket_expired[OF assms(1,2,3,4), of now]
  by simp

theorem readKerberosTicket_validity_window_witness:
  "payload sampleConnect = nexBuffer sampleTicketData @ nexBuffer sampleRequestData @ []
   \<and> length sampleTicketData < 2 ^ 32 \<and> length sampleRequestData < 2 ^ 32
   \<and> TicketDecrypt sampleEnv sampleTicketData
        (DeriveKerberosKey sampleEnv 2 (kerberosPassword sampleServer)) =
        Inr \<lparr>Issued = 1000, SourcePID = 0, SessionKey = [9, 9]\<rparr>
   \<and> KerberosDecrypt sampleEnv [9, 9] sampleRequestData =
        Inr (le_bytes 4 (1234 :: 32 word) @ le_bytes 4 (0 :: 32 word)
             @ le_bytes 4 (0xDEADBEEF :: 32 word) @ [])
   \<and> Standard sampleEnv 1000 = 1000000000000
   \<and> readKerberosTicket sampleEnv 1120000000000 sampleServer (payload sampleConnect) =
        Inr ([9, 9], 1234, 0xDEADBEEF, None)
   \<and> readKerberosTicket sampleEnv 1120000000001 sampleServer (payload sampleConnect) =
        Inr ([], 0, 0, Some ''Kerberos ticket expired'')"
proof -
  have k: "KerberosDecrypt sampleEnv
             (SessionKey \<lparr>Issued = 1000, SourcePID = 0, SessionKey = [9, 9]\<rparr>) sampleRequestData =
           Inr (le_bytes 4 (1234 :: 32 word) @ le_bytes 4 (0 :: 32 word)
                @ le_bytes 4 (0xDEADBEEF :: 32 word) @ [])"
    by (rule sampleRequest_decrypts)
  note w = readKerberosTicket_validity_window
             [OF sampleConnect_layout sampleTicket_decrypts k, where s = sampleServer]
  from w[where now = 1120000000000] w[where now = 1120000000001]
  show ?thesis
    using sampleConnect_layout sampleTicket_decrypts sampleRequest_decrypts
    by (simp add: sample_Standard)
qed

text \<open>
  C2.  CONNECT on a secure server whose ticket and request block validate: the CONNECT-ACK
  that is emitted and written carries exactly the eight bytes of uint32 LE 4 and uint32 LE
  check value plus one (wrapping), the check value being the third word of the decrypted
  request block; the peer's PID is the first word of that block and its session key is the
  session key of the ticket.
\<close>

theorem handleConnect_secure_valid:
  assumes "IsSecureServer (server w)"
    and "payload packet = nexBuffer ticketData @ nexBuffer requestData @ extra"
    and "length ticketData < 2 ^ 32" "length requestData < 2 ^ 32"
    and "TicketDecrypt env ticketData (DeriveKerberosKey env 2 (kerberosPassword (server w))) =
           Inr ticket"
    and "now \<le> Standard env (Issued ticket) + 120 * 1000000000"
    and "KerberosDecrypt env (SessionKey ticket) requestData =
           Inr (le_bytes 4 userPID @ le_bytes 4 (cid :: 32 word) @ le_bytes 4 checkValue @ extra')"
  shows "\<exists>ack w'. handleConnect env now packet w = Inr w'
           \<and> packetType ack = ConnectPacket \<and> FlagAck \<in> flags ack
           \<and> payload ack = le_bytes 4 (4 :: 32 word) @ le_bytes 4 (checkValue + 1 :: 32 word)
           \<and> length (payload ack) = 8
           \<and> trace w' = trace w
               @ map (\<lambda>h. Spawn ''connect'' h ack) (handlersOf (server w) ''connect'')
               @ [SendRaw (address (store w (sender packet))) (Bytes env ack)]
           \<and> pid (store w' (sender packet)) = userPID
           \<and> sessionKey (store w' (sender packet)) = SessionKey ticket"
proof -
  from assms(6) have "now \<le> Standard env (Issued ticket) + 120000000000" by simp
  from readKerberosTicket_valid[OF assms(2,3,4,5) this assms(7)]
  have "readKerberosTicket env now (server w) (payload packet) =
          Inr (SessionKey ticket, userPID, checkValue, None)" .
  from handleConnect_secure[OF assms(1) this] obtain ack w' where
    r: "handleConnect env now packet w = Inr w'"
       "packetType ack = ConnectPacket" "FlagAck \<in> flags ack"
       "payload ack = le_bytes 4 (4 :: 32 word) @ le_bytes 4 (checkValue + 1)"
       "trace w' = trace w @ (case None :: string option of None \<Rightarrow> [] | Some e \<Rightarrow> [Println e])
               @ map (\<lambda>h. Spawn ''connect'' h ack) (handlersOf (server w) ''connect'')
               @ [SendRaw (address (store w (sender packet))) (Bytes env ack)]"
       "pid (store w' (sender packet)) = userPID"
       "sessionKey (store w' (sender packet)) = SessionKey ticket"
    by blast
  then show ?thesis
    by (intro exI[of _ ack] exI[of _ w']) simp
qed

theorem handleConnect_secure_valid_witness:
  "IsSecureServer (server sampleWorld)
   \<and> payload sampleConnect = nexBuffer sampleTicketData @ nexBuffer sampleRequestData @ []
   \<and> length sampleTicketData < 2 ^ 32 \<and> length sampleRequestData < 2 ^ 32
   \<and> TicketDecrypt sampleEnv sampleTicketData
        (DeriveKerberosKey sampleEnv 2 (kerberosPassword (server sampleWorld))) =
        Inr \<lparr>Issued = 1000, SourcePID = 0, SessionKey = [9, 9]\<rparr>
   \<and> (1060000000000 :: int) \<le> Standard sampleEnv 1000 + 120 * 1000000000
   \<and> KerberosDecrypt sampleEnv [9, 9] sampleRequestData =
        Inr (le_bytes 4 (1234 :: 32 word) @ le_bytes 4 (0 :: 32 word)
             @ le_bytes 4 (0xDEADBEEF :: 32 word) @ [])
   \<and> (\<exists>ack w'. handleConnect sampleEnv 1060000000000 sampleConnect sampleWorld = Inr w'
         \<and> packetType ack = ConnectPacket \<and> FlagAck \<in> flags ack
         \<and> payload ack = [4, 0, 0, 0, 0xF0, 0xBE, 0xAD, 0xDE]
         \<and> trace w' = [SendRaw ''10.0.0.1:5000'' (Bytes sampleEnv ack)]
         \<and> pid (store w' 0) = 1234
         \<and> sessionKey (store w' 0) = [9, 9])"
proof -
  have s: "IsSecureServer (server sampleWorld)"
    by (simp add: sampleWorld_def sampleServer_def)
  have t: "(1060000000000 :: int) \<le>
             Standard sampleEnv (Issued \<lparr>Issued = 1000, SourcePID = 0, SessionKey = [9, 9]\<rparr>)
               + 120 * 1000000000"
    by (simp add: sample_Standard)
  have k: "KerberosDecrypt sampleEnv
             (SessionKey \<lparr>Issued = 1000, SourcePID = 0, SessionKey = [9, 9]\<rparr>) sampleRequestData =
           Inr (le_bytes 4 (1234 :: 32 word) @ le_bytes 4 (0 :: 32 word)
                @ le_bytes 4 (0xDEADBEEF :: 32 word) @ [])"
    by (rule sampleRequest_decrypts)
  from handleConnect_secure_valid[OF s sampleConnect_layout sampleTicket_decrypts t k]
  obtain ack w' where
    r: "handleConnect sampleEnv 1060000000000 sampleConnect sampleWorld = Inr w'"
       "packetType ack = ConnectPacket" "FlagAck \<in> flags ack"
       "payload ack = le_bytes 4 (4 :: 32 word) @ le_bytes 4 (0xDEADBEEF + 1 :: 32 word)"
       "trace w' = trace sampleWorld
           @ map (\<lambda>h. Spawn ''connect'' h ack) (handlersOf (server sampleWorld) ''connect'')
           @ [SendRaw (address (store sampleWorld (sender sampleConnect))) (Bytes sampleEnv ack)]"
       "pid (store w' (sender sampleConnect)) = 1234"
       "sessionKey (store w' (sender sampleConnect)) =
          SessionKey \<lparr>Issued = 1000, SourcePID = 0, SessionKey = [9, 9]\<rparr>"
    by blast
  have v: "le_bytes 4 (4 :: 32 word) @ le_bytes 4 (0xDEADBEEF + 1 :: 32 word) =
             [4, 0, 0, 0, 0xF0, 0xBE, 0xAD, 0xDE]"
    by (simp add: le_bytes_def upt_rec)
  have e: "trace sampleWorld = []" "handlersOf (server sampleWorld) ''connect'' = []"
     "address (store sampleWorld (sender sampleConnect)) = ''10.0.0.1:5000''"
     "sender sampleConnect = 0" "address (store sampleWorld 0) = ''10.0.0.1:5000''"
    by (simp_all add: sampleWorld_def sampleServer_def sampleClient_def handlersOf_def
                      sampleConnect_def samplePacket_def NewPRUDPPacket_def)
  from r s t k sampleConnect_layout sampleTicket_decrypts show ?thesis
    unfolding v e
    by (intro conjI exI[of _ ack] exI[of _ w']) (simp_all add: sample_Standard)
qed

text \<open>
  C4.  The code at a CONNECT whose ticket has expired, on a secure server, from a peer
  known as user 77: the error is printed, and the handler goes on with the zero values
  returned with it.  The CONNECT-ACK is written, with the payload of check value 0 plus
  one, and the peer's PID and session key are overwritten with 0 and the empty key.
\<close>

theorem handleConnect_expired_ticket_still_acknowledged:
  "IsSecureServer (server returningWorld)
   \<and> readKerberosTicket sampleEnv 2000000000000 (server returningWorld) (payload sampleConnect) =
       Inr ([], 0, 0, Some ''Kerberos ticket expired'')
   \<and> pid (store returningWorld 0) = 77 \<and> sessionKey (store returningWorld 0) = [5]
   \<and> (\<exists>ack w'. handleConnect sampleEnv 2000000000000 sampleConnect returningWorld = Inr w'
         \<and> packetType ack = ConnectPacket \<and> FlagAck \<in> flags ack
         \<and> payload ack = [4, 0, 0, 0, 1, 0, 0, 0]
         \<and> trace w' = [Println ''Kerberos ticket expired'',
                        SendRaw ''10.0.0.1:5000'' (Bytes sampleEnv ack)]
         \<and> pid (store w' 0) = 0
         \<and> sessionKey (store w' 0) = [])"
proof -
  have s: "IsSecureServer (server returningWorld)"
    by (simp add: returningWorld_def sampleWorld_def sampleServer_def)
  have t: "Standard sampleEnv (Issued \<lparr>Issued = 1000, SourcePID = 0, SessionKey = [9, 9]\<rparr>)
             + 120000000000 < 2000000000000"
    by (simp add: sample_Standard)
  from readKerberosTicket_expired[OF sampleConnect_layout sampleTicket_decrypts t]
  have x: "readKerberosTicket sampleEnv 2000000000000 (server returningWorld) (payload sampleConnect) =
       Inr ([], 0, 0, Some ''Kerberos ticket expired'')" .
  from handleConnect_secure[OF s x] obtain ack w' where
    r: "handleConnect sampleEnv 2000000000000 sampleConnect returningWorld = Inr w'"
       "packetType ack = ConnectPacket" "FlagAck \<in> flags ack"
       "payload ack = le_bytes 4 (4 :: 32 word) @ le_bytes 4 (0 + 1 :: 32 word)"
       "trace w' = trace returningWorld
           @ (case Some ''Kerberos ticket expired'' of None \<Rightarrow> [] | Some e \<Rightarrow> [Println e])
           @ map (\<lambda>h. Spawn ''connect'' h ack) (handlersOf (server returningWorld) ''connect'')
           @ [SendRaw (address (store returningWorld (sender sampleConnect))) (Bytes sampleEnv ack)]"
       "pid (store w' (sender sampleConnect)) = 0"
       "sessionKey (store w' (sender sampleConnect)) = []"
    by blast
  have v: "le_bytes 4 (4 :: 32 word) @ le_bytes 4 (0 + 1 :: 32 word) = [4, 0, 0, 0, 1, 0, 0, 0]"
    by (simp add: le_bytes_def upt_rec)
  have e: "trace returningWorld = []" "handlersOf (server returningWorld) ''connect'' = []"
     "address (store returningWorld (sender sampleConnect)) = ''10.0.0.1:5000''"
     "sender sampleConnect = 0" "address (store returningWorld 0) = ''10.0.0.1:5000''"
     "pid (store returningWorld 0) = 77" "sessionKey (store returningWorld 0) = [5]"
    by (simp_all add: returningWorld_def sampleWorld_def sampleServer_def sampleClient_def
                      handlersOf_def sampleConnect_def samplePacket_def NewPRUDPPacket_def)
  from r s x show ?thesis
    unfolding v e
    by (intro conjI exI[of _ ack] exI[of _ w']) simp_all
qed


section \<open>Aggregate acknowledgments\<close>

lemma ReadUInt16LE_ok:
  assumes "boff stream + 2 \<le> length (buf stream)"
  shows "ReadUInt16LE stream =
           Inr ((le_word (take 2 (drop (boff stream) (buf stream))), None),
                stream\<lparr>boff := boff stream + 2\<rparr>)"
  using assms
  by (simp add: ReadUInt16LE_def guarded_def Remaining_def ReadU16LENext_def ReadBytesNext_def)

lemma ReadUInt16LE_short:
  assumes "boff stream \<le> length (buf stream)" "length (buf stream) < boff stream + 2"
  shows "ReadUInt16LE stream = Inr ((0, Some ''Not enough data to read uint16''), stream)"
proof -
  from assms(2) have "length (buf stream) - boff stream < 2" by arith
  with assms(1) show ?thesis
    by (simp add: ReadUInt16LE_def guarded_def Remaining_def)
qed

text \<open>
  With an odd number of bytes left the old-format loop does not return: the last byte is
  never consumed, since the read that fails leaves the stream where it was.
\<close>

lemma readRemainingIDs_returns_even:
  assumes "readRemainingIDs stream sequenceIDs = Some r"
  shows "\<not> (boff stream \<le> length (buf stream) \<and> odd (length (buf stream) - boff stream))"
proof (rule readRemainingIDs.raw_induct
         [where P = "\<lambda>s i y. \<not> (boff s \<le> length (buf s) \<and> odd (length (buf s) - boff s))",
          OF _ assms],
       goal_cases)
  case (1 f s i y)
  show ?case
  proof
    assume o: "boff s \<le> length (buf s) \<and> odd (length (buf s) - boff s)"
    then have rem: "Remaining s = Inr (length (buf s) - boff s)"
      by (simp add: Remaining_def)
    define n where "n = length (buf s) - boff s"
    from o have "odd n" by (simp add: n_def)
    then have "0 < n" by (cases n) simp_all
    then have pos: "0 < length (buf s) - boff s" by (simp add: n_def)
    show False
    proof (cases "boff s + 2 \<le> length (buf s)")
      case True
      let ?s = "s\<lparr>boff := boff s + 2\<rparr>"
      from 1(2) rem pos ReadUInt16LE_ok[OF True]
      have "f ?s (i @ [le_word (take 2 (drop (boff s) (buf s)))]) = Some y"
        by simp
      from 1(1)[OF this]
      have ih: "\<not> (boff ?s \<le> length (buf ?s) \<and> odd (length (buf ?s) - boff ?s))" .
      from True have "length (buf s) - boff s = (length (buf s) - (boff s + 2)) + 2" by simp
      with o have "odd ((length (buf s) - (boff s + 2)) + 2)" by simp
      then have "odd (length (buf s) - (boff s + 2))" by simp
      with ih True show False by simp
    next
      case False
      with o have "length (buf s) < boff s + 2" by simp
      from ReadUInt16LE_short[OF _ this] o 1(2) rem pos
      have "f s (i @ [0]) = Some y" by simp
      from 1(1)[OF this] o show False by simp
    qed
  qed
qed

lemma readRemainingIDs_odd:
  assumes "boff stream \<le> length (buf stream)" "odd (length (buf stream) - boff stream)"
  shows "readRemainingIDs stream sequenceIDs = None"
proof (cases "readRemainingIDs stream sequenceIDs")
  case None
  then show ?thesis .
next
  case (Some r)
  from readRemainingIDs_returns_even[OF this] assms show ?thesis by simp
qed

text \<open>
  C3.  The code at an old-format multi-ACK (substream id 0) whose payload is a single byte:
  the handler does not return, and so neither does \<open>processPacket\<close>.
\<close>

theorem handleMultiAcknowledgment_odd_payload_diverges:
  "FlagMultiAck \<in> flags oddMultiAck \<and> substreamID oddMultiAck = 0 \<and> payload oddMultiAck = [7]
   \<and> handleMultiAcknowledgment oddMultiAck sampleWorld = None
   \<and> processPacket sampleEnv 0 oddMultiAck sampleWorld = None"
proof -
  have f: "FlagMultiAck \<in> flags oddMultiAck" "substreamID oddMultiAck = 0"
          "payload oddMultiAck = [7]"
    by (simp_all add: oddMultiAck_def samplePacket_def NewPRUDPPacket_def)
  have d: "readRemainingIDs (NewStreamIn [7]) [] = None"
    by (rule readRemainingIDs_odd) (simp_all add: NewStreamIn_def)
  have h: "handleMultiAcknowledgment oddMultiAck w = None"
    if "reliableSubstreams (store w (sender oddMultiAck)) \<noteq> []" for w
    using that by (simp add: handleMultiAcknowledgment_def f d Let_def reliableSubstream_def)
  have "handleMultiAcknowledgment oddMultiAck sampleWorld = None"
    by (rule h) (simp add: sampleWorld_def sampleClient_def)
  moreover have "processPacket sampleEnv 0 oddMultiAck sampleWorld = None"
    using h[of "resetHeartbeat (sender oddMultiAck) sampleWorld"]
    by (simp add: processPacket_def Let_def f handleAcknowledgment_def sampleWorld_def
                  sampleClient_def)
  ultimately show ?thesis using f by simp
qed


text \<open>
  On the packets that do return, the handler removes from the scheduler of the chosen
  substream exactly the listed ids and the ids up to the base, and nothing else.
\<close>

lemma acknowledgeAll_filter:
  "acknowledgeAll ids substream =
     substream\<lparr>ResendScheduler := filter (\<lambda>(k, p). k \<notin> set ids) (ResendScheduler substream)\<rparr>"
proof (induction ids arbitrary: substream)
  case Nil
  then show ?case by (simp add: acknowledgeAll_def)
next
  case (Cons a ids)
  have "acknowledgeAll (a # ids) substream = acknowledgeAll ids (AcknowledgePacket a substream)"
    by (simp add: acknowledgeAll_def)
  also have "\<dots> = substream\<lparr>ResendScheduler :=
      filter (\<lambda>(k, p). k \<notin> set ids) (filter (\<lambda>(k, p). a \<noteq> k) (ResendScheduler substream))\<rparr>"
    by (simp add: Cons.IH AcknowledgePacket_def AList.delete_eq)
  also have "filter (\<lambda>(k, p). k \<notin> set ids) (filter (\<lambda>(k, p). a \<noteq> k) (ResendScheduler substream))
               = filter (\<lambda>(k, p). k \<notin> set (a # ids)) (ResendScheduler substream)"
    by (auto intro: filter_cong)
  finally show ?case .
qed

lemma set_collectInFlight:
  "set (collectInFlight base pendings ids) = set ids \<union> {k \<in> fst ` set pendings. k \<le> base}"
proof (induction pendings arbitrary: ids)
  case Nil
  then show ?case by (simp add: collectInFlight_def)
next
  case (Cons a pendings)
  obtain k p where a: "a = (k, p)" by (cases a)
  have step: "collectInFlight base (a # pendings) ids =
          collectInFlight base pendings (if k \<le> base \<and> k \<notin> set ids then ids @ [k] else ids)"
    by (simp add: collectInFlight_def a)
  show ?case
    unfolding step Cons.IH by (auto simp: a)
qed

lemma finishMultiAck_filter:
  "finishMultiAck ref sid substream base ids w =
     putSubstream ref sid
       (substream\<lparr>ResendScheduler :=
          filter (\<lambda>(k, p). k \<notin> set ids \<and> \<not> k \<le> base) (ResendScheduler substream)\<rparr>) w"
proof -
  have "filter (\<lambda>(k, p). k \<notin> set (collectInFlight base (ResendScheduler substream) ids))
          (ResendScheduler substream)
        = filter (\<lambda>(k, p). k \<notin> set ids \<and> \<not> k \<le> base) (ResendScheduler substream)"
    by (rule filter_cong) (force simp: set_collectInFlight)+
  then show ?thesis
    by (simp add: finishMultiAck_def acknowledgeAll_filter)
qed

lemma le_word_le_bytes_16: "le_word (le_bytes 2 v) = (v :: 16 word)"
proof (rule bit_word_eqI)
  fix n
  assume "n < LENGTH(16)"
  then consider "n < 8" | "8 \<le> n" "n < 16"
    by fastforce
  then show "bit (le_word (le_bytes 2 v) :: 16 word) n = bit v n"
    by cases (auto simp: le_bytes_def upt_rec bit_simps)
qed

lemma le16s_Cons: "le16s (x # xs) = le_bytes 2 x @ le16s xs"
  by (simp add: le16s_def)

lemma length_le16s [simp]: "length (le16s ids) = 2 * length ids"
  by (induction ids) (simp_all add: le16s_def)

lemma stream_within:
  assumes "drop (boff stream) (buf stream) = xs @ rest" "xs \<noteq> []"
  shows "length (buf stream) = boff stream + length xs + length rest"
proof -
  have "boff stream \<le> length (buf stream)"
  proof (rule ccontr)
    assume "\<not> boff stream \<le> length (buf stream)"
    then have "drop (boff stream) (buf stream) = []" by simp
    with assms show False by simp
  qed
  moreover have "length (drop (boff stream) (buf stream)) = length xs + length rest"
    by (simp add: assms(1))
  ultimately show ?thesis by simp
qed

lemma ReadUInt16LE_encoded:
  assumes "drop (boff stream) (buf stream) = le_bytes 2 v @ rest"
  shows "ReadUInt16LE stream = Inr ((v, None), stream\<lparr>boff := boff stream + 2\<rparr>)"
    and "drop (boff stream + 2) (buf stream) = rest"
proof -
  have ne: "le_bytes 2 v \<noteq> []" by (simp add: le_bytes_def upt_rec)
  from stream_within[OF assms ne] have len: "boff stream + 2 \<le> length (buf stream)" by simp
  have "take 2 (drop (boff stream) (buf stream)) = le_bytes 2 v" by (simp add: assms)
  with ReadUInt16LE_ok[OF len]
  show "ReadUInt16LE stream = Inr ((v, None), stream\<lparr>boff := boff stream + 2\<rparr>)"
    by (simp add: le_word_le_bytes_16)
  have "drop (boff stream + 2) (buf stream) = drop 2 (drop (boff stream) (buf stream))"
    by (simp add: add.commute)
  then show "drop (boff stream + 2) (buf stream) = rest" by (simp add: assms)
qed

lemma readAdditionalIDs_encoded:
  assumes "drop (boff stream) (buf stream) = le16s xs @ rest"
  shows "readAdditionalIDs (length xs) stream ids =
           Inr (ids @ xs, stream\<lparr>boff := boff stream + 2 * length xs\<rparr>)"
  using assms
proof (induction xs arbitrary: stream ids)
  case Nil
  then show ?case by simp
next
  case (Cons x xs)
  from Cons.prems have d: "drop (boff stream) (buf stream) = le_bytes 2 x @ (le16s xs @ rest)"
    by (simp add: le16s_Cons)
  note r = ReadUInt16LE_encoded[OF d]
  let ?s = "stream\<lparr>boff := boff stream + 2\<rparr>"
  have "drop (boff ?s) (buf ?s) = le16s xs @ rest" using r(2) by simp
  from Cons.IH[OF this, of "ids @ [x]"] show ?case
    by (simp add: r(1) bindE_def)
qed

lemma readRemainingIDs_encoded:
  assumes "boff stream \<le> length (buf stream)" "drop (boff stream) (buf stream) = le16s xs"
  shows "readRemainingIDs stream ids = Some (Inr (ids @ xs))"
  using assms
proof (induction xs arbitrary: stream ids)
  case Nil
  then have "Remaining stream = Inr 0"
    by (simp add: Remaining_def le16s_def)
  then show ?case by (subst readRemainingIDs.simps) simp
next
  case (Cons x xs)
  from Cons.prems have d: "drop (boff stream) (buf stream) = le_bytes 2 x @ (le16s xs @ [])"
    by (simp add: le16s_Cons)
  note r = ReadUInt16LE_encoded[OF d]
  let ?s = "stream\<lparr>boff := boff stream + 2\<rparr>"
  have ne: "le_bytes 2 x \<noteq> []" by (simp add: le_bytes_def upt_rec)
  from stream_within[OF d ne] have len: "length (buf stream) = boff stream + 2 + 2 * length xs"
    by simp
  then have rem: "Remaining stream = Inr (2 + 2 * length xs)"
    by (simp add: Remaining_def)
  have "boff ?s \<le> length (buf ?s)" "drop (boff ?s) (buf ?s) = le16s xs"
    using r(2) len by simp_all
  from Cons.IH[OF this, of "ids @ [x]"] show ?case
    by (subst readRemainingIDs.simps) (simp add: rem r(1))
qed

lemma ReadUInt8_ok:
  assumes "boff stream < length (buf stream)"
  shows "ReadUInt8 stream =
           Inr ((buf stream ! boff stream, None), stream\<lparr>boff := boff stream + 1\<rparr>)"
  using assms
  by (simp add: ReadUInt8_def guarded_def Remaining_def ReadByteNext_def)

lemma handleMultiAcknowledgment_new_format:
  assumes "substreamID packet = 1"
    and "payload packet = [realSubstreamID, additionalCount] @ le_bytes 2 base @ le16s ids @ extra"
    and "length ids = unat additionalCount"
    and "reliableSubstream (store w (sender packet)) realSubstreamID = Inr substream"
  shows "handleMultiAcknowledgment packet w =
           Some (Inr (putSubstream (sender packet) realSubstreamID
             (substream\<lparr>ResendScheduler :=
                filter (\<lambda>(k, p). k \<notin> set ids \<and> \<not> k \<le> base) (ResendScheduler substream)\<rparr>) w))"
proof -
  let ?pl = "payload packet"
  have len: "4 \<le> length ?pl" by (simp add: assms(2))
  have r1: "ReadUInt8 (NewStreamIn ?pl) = Inr ((realSubstreamID, None), \<lparr>buf = ?pl, boff = 1\<rparr>)"
    using ReadUInt8_ok[of "NewStreamIn ?pl"] len
    by (simp add: NewStreamIn_def) (simp add: assms(2))
  have r2: "ReadUInt8 \<lparr>buf = ?pl, boff = Suc 0\<rparr> =
              Inr ((additionalCount, None), \<lparr>buf = ?pl, boff = 2\<rparr>)"
    using ReadUInt8_ok[of "\<lparr>buf = ?pl, boff = Suc 0\<rparr>"] len
    by simp (simp add: assms(2))
  have d2: "drop (boff \<lparr>buf = ?pl, boff = 2\<rparr>) (buf \<lparr>buf = ?pl, boff = 2\<rparr>) =
              le_bytes 2 base @ (le16s ids @ extra)"
    by (simp add: assms(2))
  note r3 = ReadUInt16LE_encoded[OF d2]
  have d4: "drop (boff \<lparr>buf = ?pl, boff = 4\<rparr>) (buf \<lparr>buf = ?pl, boff = 4\<rparr>) = le16s ids @ extra"
    using r3(2) by simp
  from readAdditionalIDs_encoded[OF d4, of "[]"]
  have r4: "readAdditionalIDs (unat additionalCount) \<lparr>buf = ?pl, boff = 4\<rparr> [] =
              Inr (ids, \<lparr>buf = ?pl, boff = 4 + 2 * length ids\<rparr>)"
    by (simp add: assms(3))
  show ?thesis
    using r3(1)
    by (simp add: handleMultiAcknowledgment_def Let_def assms(1) liftP_def r1 r2 r4
                  withSubstream_def assms(4) finishMultiAck_filter)
qed

lemma handleMultiAcknowledgment_old_format:
  assumes "substreamID packet \<noteq> 1"
    and "payload packet = le16s ids"
    and "reliableSubstream (store w (sender packet)) 0 = Inr substream"
  shows "handleMultiAcknowledgment packet w =
           Some (Inr (putSubstream (sender packet) 0
             (substream\<lparr>ResendScheduler :=
                filter (\<lambda>(k, p). k \<notin> set ids \<and> \<not> k \<le> sequenceID packet)
                       (ResendScheduler substream)\<rparr>) w))"
proof -
  have "readRemainingIDs (NewStreamIn (payload packet)) [] = Some (Inr ([] @ ids))"
    by (rule readRemainingIDs_encoded) (simp_all add: NewStreamIn_def assms(2))
  then show ?thesis
    by (simp add: handleMultiAcknowledgment_def Let_def assms(1,3) liftP_def
                  finishMultiAck_filter)
qed

text \<open>
  The scenario of a new-format multi-ACK for substream 0 with base 10 and additional ids
  7 and 9, the scheduler holding 5, 7, 8, 9, 10 and 12: only 12 is left.
\<close>

lemma multiAck_scenario:
  "map_option (\<lambda>out. map (\<lambda>substream. map fst (ResendScheduler substream))
                        (reliableSubstreams (store (finalWorld out) 0)))
     (handleMultiAcknowledgment
        ((samplePacket DataPacket {FlagMultiAck} 0
            ([0, 2] @ le_bytes 2 (10 :: 16 word) @ le16s [7, 9]))\<lparr>substreamID := 1\<rparr>)
        (sampleWorld\<lparr>store := (\<lambda>ref. sampleClient\<lparr>reliableSubstreams :=
           [(NewReliablePacketSubstreamManager [])\<lparr>ResendScheduler :=
              map (\<lambda>k. (k, samplePacket DataPacket {FlagReliable, FlagNeedsAck} k []))
                  [5, 7, 8, 9, 10, 12]\<rparr>]\<rparr>)\<rparr>))
   = Some [[12]]"
proof -
  let ?sub = "(NewReliablePacketSubstreamManager [])\<lparr>ResendScheduler :=
              map (\<lambda>k. (k, samplePacket DataPacket {FlagReliable, FlagNeedsAck} k []))
                  [5, 7, 8, 9, 10, 12 :: 16 word]\<rparr>"
  let ?w = "sampleWorld\<lparr>store := (\<lambda>ref. sampleClient\<lparr>reliableSubstreams := [?sub]\<rparr>)\<rparr>"
  let ?p = "(samplePacket DataPacket {FlagMultiAck} 0
            ([0, 2] @ le_bytes 2 (10 :: 16 word) @ le16s [7, 9]))\<lparr>substreamID := 1\<rparr>"
  have a: "substreamID ?p = 1"
          "payload ?p = [0, 2] @ le_bytes 2 (10 :: 16 word) @ le16s [7, 9] @ []"
          "length [7, 9 :: 16 word] = unat (2 :: byte)"
          "reliableSubstream (store ?w (sender ?p)) 0 = Inr ?sub"
    by (simp_all add: samplePacket_def reliableSubstream_def)
  show ?thesis
    unfolding handleMultiAcknowledgment_new_format[OF a]
    by (simp add: putSubstream_def samplePacket_def NewPRUDPPacket_def)
qed


end
